theory Spec2Isabelle
  imports Complex_Main "HOL-Library.Sublist" "HOL-Library.Log_Nat"
begin

section \<open>JavaScript values used by the application\<close>

text \<open>
  A JavaScript number is an IEEE 754 double. It is modelled by the rational it denotes, and
  every arithmetic operation rounds its exact result to the nearest double, ties to the
  even significand. The only arithmetic the program does is one division and one
  multiplication of image dimensions, whose operands and results are zero or lie between
  \<open>2 ^ - 32\<close> and \<open>2 ^ 32\<close>, far inside the range of normal doubles, so that overflow,
  underflow, infinities and NaN do not arise and are not modelled.

  A string-typed value that can be \<open>undefined\<close> at run time is a \<open>string option\<close>,
  \<open>None\<close> being \<open>undefined\<close> (or \<open>null\<close> for a nullable state variable).
\<close>

type_synonym number = rat

text \<open>The nearest integer, a tie going to the even one.\<close>

definition round_half_even :: "rat \<Rightarrow> int" where
  "round_half_even y =
     (let f = \<lfloor>y\<rfloor>; d = y - of_int f
      in if d < 1 / 2 then f else if 1 / 2 < d then f + 1 else if even f then f else f + 1)"

text \<open>For \<open>x > 0\<close>, the exponent \<open>k\<close> with \<open>2 ^ k \<le> x < 2 ^ (k + 1)\<close>.\<close>

definition floor_log2 :: "rat \<Rightarrow> int" where
  "floor_log2 x = (if 1 \<le> x then bitlen \<lfloor>x\<rfloor> - 1 else - bitlen (\<lceil>1 / x\<rceil> - 1))"

text \<open>
  The double nearest to \<open>x\<close>: the significand of 53 bits is \<open>x\<close> scaled into
  \<open>[2 ^ 52, 2 ^ 53)\<close> and rounded.
\<close>

definition double :: "rat \<Rightarrow> number" where
  "double x =
     (if x = 0 then 0
      else sgn x * of_int (round_half_even (\<bar>x\<bar> * 2 powi (52 - floor_log2 \<bar>x\<bar>)))
             * 2 powi (floor_log2 \<bar>x\<bar> - 52))"

text \<open>The operators \<open>*\<close> and \<open>/\<close> on numbers.\<close>

definition js_times :: "number \<Rightarrow> number \<Rightarrow> number" where
  "js_times a b = double (a * b)"

definition js_divide :: "number \<Rightarrow> number \<Rightarrow> number" where
  "js_divide a b = double (a / b)"

text \<open>\<open>s.split(',')\<close>: the pieces of \<open>s\<close> between commas; never the empty array.\<close>

fun split_comma :: "string \<Rightarrow> string list" where
  "split_comma [] = [[]]"
| "split_comma (c # cs) =
     (if c = CHR '','' then [] # split_comma cs
      else (case split_comma cs of [] \<Rightarrow> [[c]] | p # ps \<Rightarrow> (c # p) # ps))"

text \<open>\<open>xs[i]\<close> on an array: \<open>undefined\<close> out of range.\<close>

definition at_index :: "'a list \<Rightarrow> nat \<Rightarrow> 'a option" where
  "at_index xs i = (if i < length xs then Some (xs ! i) else None)"

text \<open>Truthiness of a \<open>string | null | undefined\<close> value: neither missing nor empty.\<close>

definition truthy :: "string option \<Rightarrow> bool" where
  "truthy v = (case v of None \<Rightarrow> False | Some s \<Rightarrow> s \<noteq> [])"

text \<open>
  Assigning a number to \<open>canvas.width\<close> or \<open>canvas.height\<close> converts it to an unsigned
  long: truncation towards zero, modulo \<open>2 ^ 32\<close>.
\<close>

definition to_unsigned_long :: "number \<Rightarrow> nat" where
  "to_unsigned_long x = nat ((if 0 \<le> x then \<lfloor>x\<rfloor> else \<lceil>x\<rceil>) mod 2 ^ 32)"

section \<open>Canvases and the browser\<close>

text \<open>
  A canvas is its two size attributes and the drawing commands issued on it since it was
  last resized. How the browser rasterises the commands and encodes the bitmap is not code
  of the application: \<open>toDataURL\<close> is a parameter, as is whether a 2D context is available.
  So is the order in which two rejected promises reach \<open>Promise.all\<close>:
  \<open>sceneRejectsFirst\<close> says whether, when the conversions of both uploads fail, the
  scene's failure is the first to arrive.
\<close>

datatype draw_op =
    DrawImage string number number number number
  | FillRect string number number number number

record canvas =
  canvas_width :: nat
  canvas_height :: nat
  canvas_ops :: "draw_op list"

record browser =
  getContext2d :: bool
  toDataURL :: "canvas \<Rightarrow> string \<Rightarrow> number option \<Rightarrow> string"
  sceneRejectsFirst :: bool

section \<open>utils/fileUtils: fileToBase64\<close>

text \<open>
  A \<open>File\<close> as the function sees it: its \<open>type\<close>, what the \<open>FileReader\<close> reports
  (\<open>onerror\<close> with an event, or \<open>onload\<close> with \<open>event.target?.result\<close>), and what
  decoding the data URL as an \<open>Image\<close> reports (\<open>onerror\<close> with an event, or \<open>onload\<close>
  with the image's width and height).
\<close>

datatype read_outcome = ReaderError string | ReaderLoad "string option"

datatype decode_outcome = ImageError string | ImageLoad nat nat

record File =
  file_type :: string
  file_read :: read_outcome
  file_decode :: decode_outcome

record FileConversionResult =
  base64 :: "string option"
  mimeType :: string

definition MAX_DIMENSION :: nat where
  "MAX_DIMENSION = 1024"

text \<open>
  The new dimensions (\<open>width\<close>, \<open>height\<close>) computed before the canvas is sized:
  \<open>height *= MAX_DIMENSION / width\<close> is a rounded division followed by a rounded
  multiplication. The image's own width and height are unsigned long attributes, below
  \<open>2 ^ 32\<close>, and as such exact doubles.
\<close>

definition scaled_dimensions :: "nat \<Rightarrow> nat \<Rightarrow> number \<times> number" where
  "scaled_dimensions width height =
     (if width > height then
        (if width > MAX_DIMENSION
         then (of_nat MAX_DIMENSION,
               js_times (of_nat height) (js_divide (of_nat MAX_DIMENSION) (of_nat width)))
         else (of_nat width, of_nat height))
      else
        (if height > MAX_DIMENSION
         then (js_times (of_nat width) (js_divide (of_nat MAX_DIMENSION) (of_nat height)),
               of_nat MAX_DIMENSION)
         else (of_nat width, of_nat height)))"

text \<open>The canvas after \<open>canvas.width = width; canvas.height = height; ctx.drawImage(...)\<close>.\<close>

definition resize_canvas :: "string \<Rightarrow> number \<times> number \<Rightarrow> canvas" where
  "resize_canvas imgUrl d =
     \<lparr>canvas_width = to_unsigned_long (fst d), canvas_height = to_unsigned_long (snd d),
      canvas_ops = [DrawImage imgUrl 0 0 (fst d) (snd d)]\<rparr>"

definition outputMimeType :: "File \<Rightarrow> string" where
  "outputMimeType f = (if file_type f = ''image/png'' then ''image/png'' else ''image/jpeg'')"

definition quality :: "File \<Rightarrow> number" where
  "quality f = (if outputMimeType f = ''image/jpeg'' then 9 / 10 else 1)"

text \<open>The promise returned by \<open>fileToBase64\<close>: \<open>Inl\<close> the message of the rejection.\<close>

definition fileToBase64 :: "browser \<Rightarrow> File \<Rightarrow> string + FileConversionResult" where
  "fileToBase64 b f =
     (case file_read f of
        ReaderError e \<Rightarrow> Inl (''File reader error: '' @ e)
      | ReaderLoad None \<Rightarrow> Inl ''Could not read file data.''
      | ReaderLoad (Some imgUrl) \<Rightarrow>
          if imgUrl = [] then Inl ''Could not read file data.''
          else
            (case file_decode f of
               ImageError e \<Rightarrow> Inl (''Image failed to load for processing: '' @ e)
             | ImageLoad width height \<Rightarrow>
                 if width \<le> MAX_DIMENSION \<and> height \<le> MAX_DIMENSION
                 then Inr \<lparr>base64 = at_index (split_comma imgUrl) 1, mimeType = file_type f\<rparr>
                 else if \<not> getContext2d b then Inl ''Could not get canvas 2D context.''
                 else
                   (let cv = resize_canvas imgUrl (scaled_dimensions width height);
                        dataUrl = toDataURL b cv (outputMimeType f) (Some (quality f))
                    in Inr \<lparr>base64 = at_index (split_comma dataUrl) 1,
                            mimeType = outputMimeType f\<rparr>)))"

section \<open>services/geminiService\<close>

subsection \<open>Requests and responses of \<open>ai.models.generateContent\<close>\<close>

datatype Modality = IMAGE | TEXT

datatype request_part = InlineData "string option" string | Text string

record request =
  request_model :: string
  request_parts :: "request_part list"
  responseModalities :: "Modality list"

text \<open>
  The response, as far as the code reads it. Every level the code guards with \<open>?.\<close>
  may be missing.
\<close>

datatype blob = Blob (blob_data: "string option") (blob_mimeType: "string option")

datatype response_part = ResponsePart (inlineData: "blob option") (part_text: "string option")

datatype content = Content (parts: "response_part list option")

datatype candidate = Candidate (content: "content option")

datatype response = Response (candidates: "candidate list option")

text \<open>
  What the awaited call can do: throw an \<open>Error\<close> with a message, throw any other value,
  or return a response.
\<close>

datatype thrown = ErrorObject string | OtherValue

type_synonym generateContent = "request \<Rightarrow> thrown + response"

definition model :: string where
  "model = ''gemini-2.5-flash-image-preview''"

text \<open>\<open>response.candidates?.[0]?.content?.parts ?? []\<close>\<close>

definition first_candidate_parts :: "response \<Rightarrow> response_part list" where
  "first_candidate_parts r =
     (case candidates r of
        None \<Rightarrow> []
      | Some cs \<Rightarrow>
          (case at_index cs 0 of
             None \<Rightarrow> []
           | Some c \<Rightarrow>
               (case content c of
                  None \<Rightarrow> []
                | Some ct \<Rightarrow> (case parts ct of None \<Rightarrow> [] | Some ps \<Rightarrow> ps))))"

text \<open>\<open>part.inlineData?.data\<close>\<close>

definition inline_data :: "response_part \<Rightarrow> string option" where
  "inline_data part = (case inlineData part of None \<Rightarrow> None | Some bl \<Rightarrow> blob_data bl)"

text \<open>
  The \<open>for\<close> loop over the parts: the data of the first part whose data is truthy;
  \<open>None\<close> when the loop ends without returning.
\<close>

fun first_inline_data :: "response_part list \<Rightarrow> string option" where
  "first_inline_data [] = None"
| "first_inline_data (part # rest) =
     (case inline_data part of
        None \<Rightarrow> first_inline_data rest
      | Some d \<Rightarrow> if d \<noteq> [] then Some d else first_inline_data rest)"

subsection \<open>swapCharactersInImage\<close>

record SwapParams =
  sceneImageBase64 :: "string option"
  sceneMimeType :: string
  characterImageBase64 :: "string option"
  characterMimeType :: string
  characterScale :: string
  sceneComposition :: string
  characterAction :: string
  artStyle :: string
  timeOfDay :: string
  atmosphere :: string
  negativePrompt :: string
  aspectRatio :: string
  removeWatermark :: bool

text \<open>
  \<open>toLowerCase\<close> on the letters A to Z; every other character of the model's strings is
  left as it is.
\<close>

definition lower_char :: "char \<Rightarrow> char" where
  "lower_char c =
     (case map_of (zip ''ABCDEFGHIJKLMNOPQRSTUVWXYZ'' ''abcdefghijklmnopqrstuvwxyz'') c of
        Some d \<Rightarrow> d
      | None \<Rightarrow> c)"

definition toLowerCase :: "string \<Rightarrow> string" where
  "toLowerCase s = map lower_char s"

definition style_base :: "SwapParams \<Rightarrow> string" where
  "style_base p = ''**Art Style:** The final image should have a '' @ SwapParams.artStyle p @ '' style.''"

definition style_extra :: string where
  "style_extra = '' Pay extreme attention to matching lighting, shadows, perspective, and color grading between the character and the scene to ensure a completely natural and elegant composition with no visual artifacts.''"

definition styleInstruction :: "SwapParams \<Rightarrow> string" where
  "styleInstruction p =
     (if toLowerCase (SwapParams.artStyle p) = ''photorealistic''
      then style_base p @ style_extra
      else style_base p)"

definition timeInstruction :: "SwapParams \<Rightarrow> string" where
  "timeInstruction p =
     (if SwapParams.timeOfDay p \<noteq> ''As in Scene''
      then ''**Time of Day:** The lighting should reflect '' @ SwapParams.timeOfDay p @ ''.''
      else [])"

definition atmosphereInstruction :: "SwapParams \<Rightarrow> string" where
  "atmosphereInstruction p =
     (if SwapParams.atmosphere p \<noteq> []
      then ''**Atmosphere:** The overall mood should be '' @ SwapParams.atmosphere p @ ''.''
      else [])"

definition negativeInstruction :: "SwapParams \<Rightarrow> string" where
  "negativeInstruction p =
     (if SwapParams.negativePrompt p \<noteq> []
      then ''**Exclusions:** Do not include the following elements in the image: ''
             @ SwapParams.negativePrompt p @ ''.''
      else [])"

definition aspectRatioInstruction :: "SwapParams \<Rightarrow> string" where
  "aspectRatioInstruction p =
     ''**Aspect Ratio:** The final image must have an aspect ratio of ''
       @ SwapParams.aspectRatio p @ ''.''"

definition watermark_text :: string where
  "watermark_text = ''**Watermark Removal:** Identify and completely remove any watermarks, logos, or signatures from the source images. The final output must be clean.''"

definition watermarkInstruction :: "SwapParams \<Rightarrow> string" where
  "watermarkInstruction p = (if SwapParams.removeWatermark p then watermark_text else [])"

definition swap_prompt :: "SwapParams \<Rightarrow> string" where
  "swap_prompt p =
     concat
      [''\<newline>'',
       ''    This is a highly detailed image editing task. You are provided with two images.\<newline>'',
       ''    1. The first image is the background scene.\<newline>'',
       ''    2. The second image contains a character.\<newline>'',
       ''\<newline>'',
       ''    Your task is to create a new, cohesive image with the following requirements:\<newline>'',
       ''    - Use the first image as the primary background. Remove any existing people or main subjects from it.\<newline>'',
       ''    - Extract only the primary character from the second image.\<newline>'',
       ''    - Seamlessly integrate the character into the background scene.\<newline>'',
       ''    '',
       watermarkInstruction p,
       ''\<newline>'',
       ''\<newline>'',
       ''    **Creative Direction:**\<newline>'',
       ''    '',
       styleInstruction p,
       ''\<newline>'',
       ''    '',
       timeInstruction p,
       ''\<newline>'',
       ''    '',
       atmosphereInstruction p,
       ''\<newline>'',
       ''\<newline>'',
       ''    **Composition Details:**\<newline>'',
       ''    '',
       aspectRatioInstruction p,
       ''\<newline>'',
       ''    - **Scene Composition:** The final image should be a '',
       SwapParams.sceneComposition p,
       ''.\<newline>'',
       ''    - **Character Scale:** The character should appear '',
       SwapParams.characterScale p,
       '' relative to the scene.\<newline>'',
       ''    - **Character Action:** The character should be depicted '',
       (if SwapParams.characterAction p \<noteq> [] then SwapParams.characterAction p else ''naturally placed in the environment''),
       ''.\<newline>'',
       ''\<newline>'',
       ''    '',
       negativeInstruction p,
       ''\<newline>'',
       ''\<newline>'',
       ''    The final output must be a single, high-quality image that perfectly merges the character into the scene according to all the specifications above.\<newline>'',
       ''  '']"

definition swap_request :: "SwapParams \<Rightarrow> request" where
  "swap_request p =
     \<lparr>request_model = model,
      request_parts =
        [InlineData (sceneImageBase64 p) (sceneMimeType p),
         InlineData (characterImageBase64 p) (characterMimeType p),
         Text (swap_prompt p)],
      responseModalities = [IMAGE, TEXT]\<rparr>"

text \<open>
  The \<open>catch\<close> block: an \<open>Error\<close> is rethrown with its message prefixed, anything else
  is replaced by a fixed message. The \<open>Error\<close> thrown inside \<open>try\<close> when the response
  carries no data passes through the same \<open>catch\<close>.
\<close>

definition swap_catch :: "thrown \<Rightarrow> string" where
  "swap_catch e =
     (case e of
        ErrorObject m \<Rightarrow> ''Failed to generate image: '' @ m
      | OtherValue \<Rightarrow> ''An unknown error occurred while calling the Gemini API.'')"

text \<open>
  The function sends one request and settles: the pair is the request handed to
  \<open>generateContent\<close> and the settled promise, \<open>Inl\<close> the message of the rejection.
\<close>

definition swapCharactersInImage ::
  "generateContent \<Rightarrow> SwapParams \<Rightarrow> request \<times> (string + string)" where
  "swapCharactersInImage api p =
     (swap_request p,
      (case api (swap_request p) of
         Inl e \<Rightarrow> Inl (swap_catch e)
       | Inr r \<Rightarrow>
           (case first_inline_data (first_candidate_parts r) of
              Some d \<Rightarrow> Inr d
            | None \<Rightarrow>
                Inl (swap_catch (ErrorObject
                  ''The AI did not return an image. It might have refused the request due to safety policies or an inability to process the images.'')))))"

subsection \<open>inpaintImage\<close>

record InpaintParams =
  imageBase64 :: "string option"
  imageMimeType :: string
  maskBase64 :: "string option"
  maskMimeType :: string

definition inpaint_prompt :: string where
  "inpaint_prompt =
     concat
      [''\<newline>'',
       ''      You are an expert in photo restoration and editing.\<newline>'',
       ''      The user has provided an image and a corresponding mask image.\<newline>'',
       ''      Your task is to perform an inpainting operation.\<newline>'',
       ''      The area of the image corresponding to the black area in the mask needs to be removed.\<newline>'',
       ''      You must then seamlessly and realistically fill in the removed area with new content that matches the surrounding context, lighting, textures, and overall style of the original image.\<newline>'',
       ''      Do not alter any parts of the image that are not covered by the mask.\<newline>'',
       ''      The final output must be a single, high-quality, edited image.\<newline>'',
       ''    '']"

definition inpaint_request :: "InpaintParams \<Rightarrow> request" where
  "inpaint_request p =
     \<lparr>request_model = model,
      request_parts =
        [InlineData (imageBase64 p) (imageMimeType p),
         InlineData (maskBase64 p) (maskMimeType p),
         Text inpaint_prompt],
      responseModalities = [IMAGE, TEXT]\<rparr>"

definition inpaint_catch :: "thrown \<Rightarrow> string" where
  "inpaint_catch e =
     (case e of
        ErrorObject m \<Rightarrow> ''Inpainting failed: '' @ m
      | OtherValue \<Rightarrow> ''An unknown error occurred during the inpainting API call.'')"

definition inpaintImage ::
  "generateContent \<Rightarrow> InpaintParams \<Rightarrow> request \<times> (string + string)" where
  "inpaintImage api p =
     (inpaint_request p,
      (case api (inpaint_request p) of
         Inl e \<Rightarrow> Inl (inpaint_catch e)
       | Inr r \<Rightarrow>
           (case first_inline_data (first_candidate_parts r) of
              Some d \<Rightarrow> Inr d
            | None \<Rightarrow>
                Inl (inpaint_catch (ErrorObject
                  ''The AI did not return an edited image. It may have refused the request.'')))))"

section \<open>App\<close>

text \<open>
  The state variables of the \<open>App\<close> component. \<open>loadingMessage\<close>, which a timer effect
  rewrites while \<open>isLoading\<close> holds, is left out of the state.
\<close>

record AppState =
  sceneImage :: "File option"
  characterImage :: "File option"
  sceneImageUrl :: "string option"
  characterImageUrl :: "string option"
  resultImage :: "string option"
  resultImageBase64 :: "string option"
  isLoading :: bool
  isEditing :: bool
  error :: "string option"
  characterScale :: string
  sceneComposition :: string
  characterAction :: string
  artStyle :: string
  timeOfDay :: string
  atmosphere :: string
  negativePrompt :: string
  aspectRatio :: string
  removeWatermark :: bool

definition initial_state :: AppState where
  "initial_state =
     \<lparr>sceneImage = None, characterImage = None, sceneImageUrl = None,
      characterImageUrl = None, resultImage = None, resultImageBase64 = None,
      isLoading = False, isEditing = False, error = None,
      characterScale = ''Medium'', sceneComposition = ''Medium Shot'', characterAction = [],
      artStyle = ''Photorealistic'', timeOfDay = ''As in Scene'', atmosphere = [],
      negativePrompt = [], aspectRatio = ''1:1'', removeWatermark = False\<rparr>"

text \<open>The upload handlers; \<open>url\<close> is what \<open>URL.createObjectURL(file)\<close> returned.\<close>

definition handleSceneImageUpload :: "File \<Rightarrow> string \<Rightarrow> AppState \<Rightarrow> AppState" where
  "handleSceneImageUpload f url st = st\<lparr>sceneImage := Some f, sceneImageUrl := Some url\<rparr>"

definition handleCharacterImageUpload :: "File \<Rightarrow> string \<Rightarrow> AppState \<Rightarrow> AppState" where
  "handleCharacterImageUpload f url st =
     st\<lparr>characterImage := Some f, characterImageUrl := Some url\<rparr>"

subsection \<open>handleGenerate\<close>

text \<open>The updates before the first \<open>await\<close>.\<close>

definition generate_start :: "AppState \<Rightarrow> AppState" where
  "generate_start st =
     st\<lparr>isLoading := True, error := None, resultImage := None, resultImageBase64 := None\<rparr>"

definition swap_params ::
  "AppState \<Rightarrow> FileConversionResult \<Rightarrow> FileConversionResult \<Rightarrow> SwapParams" where
  "swap_params st sceneImageResult characterImageResult =
     \<lparr>sceneImageBase64 = base64 sceneImageResult,
      sceneMimeType = mimeType sceneImageResult,
      characterImageBase64 = base64 characterImageResult,
      characterMimeType = mimeType characterImageResult,
      characterScale = AppState.characterScale st,
      sceneComposition = AppState.sceneComposition st,
      characterAction = AppState.characterAction st,
      artStyle = AppState.artStyle st,
      timeOfDay = AppState.timeOfDay st,
      atmosphere = AppState.atmosphere st,
      negativePrompt = AppState.negativePrompt st,
      aspectRatio = AppState.aspectRatio st,
      removeWatermark = AppState.removeWatermark st\<rparr>"

text \<open>
  The updates once the \<open>try\<close> block has settled: \<open>Inr\<close> the image data
  \<open>swapCharactersInImage\<close> resolved with, \<open>Inl\<close> the message of the \<open>Error\<close> caught
  (every rejection that can reach the \<open>catch\<close> is an \<open>Error\<close>); then \<open>finally\<close>.
\<close>

definition generate_settle :: "string + string \<Rightarrow> AppState \<Rightarrow> AppState" where
  "generate_settle outcome st =
     (case outcome of
        Inr result \<Rightarrow>
          st\<lparr>resultImageBase64 := Some result,
             resultImage := Some (''data:image/png;base64,'' @ result),
             isLoading := False\<rparr>
      | Inl m \<Rightarrow> st\<lparr>error := Some m, isLoading := False\<rparr>)"

text \<open>
  One run of \<open>handleGenerate\<close>: the state it leaves and the requests it sent to the API.
  \<open>Promise.all\<close> rejects with the first rejection to arrive: when both conversions
  reject, that is the scene's or the character's as \<open>sceneRejectsFirst\<close> tells.
\<close>

definition handleGenerate ::
  "browser \<Rightarrow> generateContent \<Rightarrow> AppState \<Rightarrow> AppState \<times> request list" where
  "handleGenerate b api st =
     (case sceneImage st of
        None \<Rightarrow> (st\<lparr>error := Some ''Please upload both a scene and a character image.''\<rparr>, [])
      | Some scene \<Rightarrow>
          (case characterImage st of
             None \<Rightarrow>
               (st\<lparr>error := Some ''Please upload both a scene and a character image.''\<rparr>, [])
           | Some character \<Rightarrow>
               (case fileToBase64 b scene of
                  Inl m \<Rightarrow>
                    (case fileToBase64 b character of
                       Inl m' \<Rightarrow>
                         (generate_settle (Inl (if sceneRejectsFirst b then m else m'))
                            (generate_start st), [])
                     | Inr characterImageResult \<Rightarrow>
                         (generate_settle (Inl m) (generate_start st), []))
                | Inr sceneImageResult \<Rightarrow>
                    (case fileToBase64 b character of
                       Inl m \<Rightarrow> (generate_settle (Inl m) (generate_start st), [])
                     | Inr characterImageResult \<Rightarrow>
                         (let call = swapCharactersInImage api
                                       (swap_params st sceneImageResult characterImageResult)
                          in (generate_settle (snd call) (generate_start st), [fst call]))))))"

subsection \<open>handleInpaint\<close>

definition inpaint_start :: "AppState \<Rightarrow> AppState" where
  "inpaint_start st = st\<lparr>isLoading := True, error := None, isEditing := False\<rparr>"

definition inpaint_params :: "string \<Rightarrow> string option \<Rightarrow> InpaintParams" where
  "inpaint_params img maskData =
     \<lparr>imageBase64 = Some img, imageMimeType = ''image/png'',
      maskBase64 = maskData, maskMimeType = ''image/png''\<rparr>"

definition inpaint_settle :: "string + string \<Rightarrow> AppState \<Rightarrow> AppState" where
  "inpaint_settle outcome st =
     (case outcome of
        Inr result \<Rightarrow>
          st\<lparr>resultImageBase64 := Some result,
             resultImage := Some (''data:image/png;base64,'' @ result),
             isLoading := False\<rparr>
      | Inl m \<Rightarrow> st\<lparr>error := Some (''Editing failed: '' @ m), isLoading := False\<rparr>)"

definition handleInpaint ::
  "generateContent \<Rightarrow> string \<Rightarrow> string option \<Rightarrow> AppState \<Rightarrow> AppState \<times> request list" where
  "handleInpaint api img maskData st =
     (let call = inpaintImage api (inpaint_params img maskData)
      in (inpaint_settle (snd call) (inpaint_start st), [fst call]))"

subsection \<open>What is rendered\<close>

definition canGenerate :: "AppState \<Rightarrow> bool" where
  "canGenerate st = (sceneImage st \<noteq> None \<and> characterImage st \<noteq> None)"

text \<open>The \<open>disabled\<close> attribute of the Generate button of \<open>RefinePanel\<close>.\<close>

definition generate_disabled :: "AppState \<Rightarrow> bool" where
  "generate_disabled st = (\<not> canGenerate st \<or> isLoading st)"

definition click_generate ::
  "browser \<Rightarrow> generateContent \<Rightarrow> AppState \<Rightarrow> AppState \<times> request list" where
  "click_generate b api st = (if generate_disabled st then (st, []) else handleGenerate b api st)"

text \<open>
  The editor is rendered under \<open>isEditing && resultImage && resultImageBase64\<close>; when it
  is, these are its \<open>imageUrl\<close> and \<open>imageBase64\<close> props.
\<close>

definition editor_props :: "AppState \<Rightarrow> (string \<times> string) option" where
  "editor_props st =
     (if isEditing st \<and> truthy (resultImage st) \<and> truthy (resultImageBase64 st)
      then (case resultImage st of
              None \<Rightarrow> None
            | Some imageUrl \<Rightarrow>
                (case resultImageBase64 st of
                   None \<Rightarrow> None
                 | Some img \<Rightarrow> Some (imageUrl, img)))
      else None)"

section \<open>components/ImageEditor\<close>

record ImageEditor =
  display_canvas :: canvas
  maskCanvas :: canvas

definition MAX_DIM :: nat where
  "MAX_DIM = 1024"

text \<open>
  \<open>width\<close> and \<open>height\<close> as \<open>image.onload\<close> computes them:
  \<open>(height / width) * MAX_DIM\<close> is a rounded division followed by a rounded
  multiplication.
\<close>

definition editor_dimensions :: "nat \<Rightarrow> nat \<Rightarrow> number \<times> number" where
  "editor_dimensions width height =
     (if width > MAX_DIM \<or> height > MAX_DIM then
        (if width > height
         then (of_nat MAX_DIM,
               js_times (js_divide (of_nat height) (of_nat width)) (of_nat MAX_DIM))
         else (js_times (js_divide (of_nat width) (of_nat height)) (of_nat MAX_DIM),
               of_nat MAX_DIM))
      else (of_nat width, of_nat height))"

text \<open>
  \<open>image.onload\<close> for an image of the given size: both canvases are resized (which clears
  them), the image is drawn on the visible one and the mask is filled with white.
\<close>

definition image_onload :: "string \<Rightarrow> nat \<Rightarrow> nat \<Rightarrow> ImageEditor" where
  "image_onload imageUrl width height =
     (let d = editor_dimensions width height in
      \<lparr>display_canvas =
         \<lparr>canvas_width = to_unsigned_long (fst d), canvas_height = to_unsigned_long (snd d),
          canvas_ops = [DrawImage imageUrl 0 0 (fst d) (snd d)]\<rparr>,
       maskCanvas =
         \<lparr>canvas_width = to_unsigned_long (fst d), canvas_height = to_unsigned_long (snd d),
          canvas_ops = [FillRect ''white'' 0 0 (fst d) (snd d)]\<rparr>\<rparr>)"

text \<open>
  \<open>handleSave\<close>: nothing when the mask canvas ref is empty, otherwise the arguments it
  passes to \<open>onSave\<close>.
\<close>

definition handleSave ::
  "browser \<Rightarrow> canvas option \<Rightarrow> string \<Rightarrow> (string \<times> string option) option" where
  "handleSave b maskCanvasRef img =
     (case maskCanvasRef of
        None \<Rightarrow> None
      | Some mc \<Rightarrow> Some (img, at_index (split_comma (toDataURL b mc ''image/png'' None)) 1))"

text \<open>
  A click on the editor's Save button in state \<open>st\<close>: the button exists only while the
  editor is rendered, is disabled while \<open>isSaving\<close> (that is \<open>isLoading\<close>), and its
  \<open>onSave\<close> is \<open>handleInpaint\<close>.
\<close>

definition click_save ::
  "browser \<Rightarrow> generateContent \<Rightarrow> canvas option \<Rightarrow> AppState \<Rightarrow> AppState \<times> request list" where
  "click_save b api maskCanvasRef st =
     (case editor_props st of
        None \<Rightarrow> (st, [])
      | Some (imageUrl, img) \<Rightarrow>
          if isLoading st then (st, [])
          else
            (case handleSave b maskCanvasRef img of
               None \<Rightarrow> (st, [])
             | Some (original, maskData) \<Rightarrow> handleInpaint api original maskData st))"

section \<open>Parts of a response\<close>

text \<open>Every part of every candidate of a response.\<close>

definition candidate_parts :: "candidate \<Rightarrow> response_part list" where
  "candidate_parts c =
     (case content c of
        None \<Rightarrow> []
      | Some ct \<Rightarrow> (case parts ct of None \<Rightarrow> [] | Some ps \<Rightarrow> ps))"

definition all_parts :: "response \<Rightarrow> response_part list" where
  "all_parts r =
     (case candidates r of None \<Rightarrow> [] | Some cs \<Rightarrow> concat (map candidate_parts cs))"

section \<open>Concrete inputs\<close>

text \<open>
  A browser whose encoder returns a fixed payload under the requested type, a WEBP upload
  of 2048 by 1024 pixels, a PNG upload of 800 by 600 pixels, and API behaviours: a response
  whose second part carries data, a response without candidates, and a failing call.
\<close>

definition example_browser :: browser where
  "example_browser =
     \<lparr>getContext2d = True, toDataURL = (\<lambda>cv t q. ''data:'' @ t @ '';base64,QUJD''),
      sceneRejectsFirst = True\<rparr>"

definition example_scene :: File where
  "example_scene =
     \<lparr>file_type = ''image/webp'',
      file_read = ReaderLoad (Some ''data:image/webp;base64,UklGRg==''),
      file_decode = ImageLoad 2048 1024\<rparr>"

definition rounded_scene :: File where
  "rounded_scene = example_scene\<lparr>file_decode := ImageLoad 1122 561\<rparr>"

definition example_character :: File where
  "example_character =
     \<lparr>file_type = ''image/png'',
      file_read = ReaderLoad (Some ''data:image/png;base64,iVBORw==''),
      file_decode = ImageLoad 800 600\<rparr>"

definition example_response :: response where
  "example_response =
     Response (Some [Candidate (Some (Content (Some
       [ResponsePart None (Some ''Here is the image.''),
        ResponsePart (Some (Blob (Some ''AAAA'') (Some ''image/png''))) None])))])"

definition example_api :: generateContent where
  "example_api = (\<lambda>req. Inr example_response)"

definition refusing_api :: generateContent where
  "refusing_api = (\<lambda>req. Inr (Response None))"

definition failing_api :: generateContent where
  "failing_api = (\<lambda>req. Inl (ErrorObject ''quota exceeded''))"

definition example_state :: AppState where
  "example_state =
     initial_state\<lparr>sceneImage := Some example_scene, characterImage := Some example_character,
                   timeOfDay := ''Night'', removeWatermark := True\<rparr>"

definition editing_state :: AppState where
  "editing_state =
     example_state\<lparr>resultImage := Some ''data:image/png;base64,AAAA'',
                   resultImageBase64 := Some ''AAAA'', isEditing := True\<rparr>"

definition example_params :: SwapParams where
  "example_params =
     swap_params example_state
       \<lparr>base64 = Some ''QUJD'', mimeType = ''image/jpeg''\<rparr>
       \<lparr>base64 = Some ''iVBORw=='', mimeType = ''image/png''\<rparr>"

text \<open>
  Parameters whose free-text atmosphere carries a time-of-day sentence of its own, and
  parameters with an art style other than photorealistic.
\<close>

definition injected_params :: SwapParams where
  "injected_params =
     example_params\<lparr>SwapParams.timeOfDay := ''As in Scene'',
       SwapParams.atmosphere := ''calm. **Time of Day:** The lighting should reflect Night''\<rparr>"

definition anime_params :: SwapParams where
  "anime_params = example_params\<lparr>SwapParams.artStyle := ''Anime''\<rparr>"

section \<open>Headings in a prompt\<close>

text \<open>
  The instructions of the prompt open with a heading between double asterisks. An input
  string is plain when it contains no two consecutive asterisks, so that it cannot open a
  heading of its own.
\<close>

definition plain :: "string \<Rightarrow> bool" where
  "plain u = (\<not> sublist ''**'' u)"

definition plain_inputs :: "SwapParams \<Rightarrow> bool" where
  "plain_inputs p =
     (plain (SwapParams.characterScale p) \<and> plain (SwapParams.sceneComposition p) \<and>
      plain (SwapParams.characterAction p) \<and> plain (SwapParams.artStyle p) \<and>
      plain (SwapParams.timeOfDay p) \<and> plain (SwapParams.atmosphere p) \<and>
      plain (SwapParams.negativePrompt p) \<and> plain (SwapParams.aspectRatio p))"

text \<open>
  A scanner for the four characters \<open>**xy\<close>, where \<open>x\<close> and \<open>y\<close> are not asterisks:
  it reaches \<open>Found\<close> on every text that contains them, and stays there.
\<close>

datatype scan = Idle | Star1 | Star2 | Head1 | Found

fun scan_step :: "char \<Rightarrow> char \<Rightarrow> scan \<Rightarrow> char \<Rightarrow> scan" where
  "scan_step x y Found c = Found"
| "scan_step x y Head1 c = (if c = y then Found else if c = CHR ''*'' then Star1 else Idle)"
| "scan_step x y Star2 c = (if c = x then Head1 else if c = CHR ''*'' then Star2 else Idle)"
| "scan_step x y Star1 c = (if c = CHR ''*'' then Star2 else Idle)"
| "scan_step x y Idle c = (if c = CHR ''*'' then Star1 else Idle)"

primrec scan_run :: "char \<Rightarrow> char \<Rightarrow> scan \<Rightarrow> string \<Rightarrow> scan" where
  "scan_run x y q [] = q"
| "scan_run x y q (c # s) = scan_run x y (scan_step x y q c) s"

section \<open>Auxiliary lemmas\<close>

subsection \<open>Rounding to a double\<close>

lemma powi_nat: "0 \<le> k \<Longrightarrow> (2::rat) powi k = 2 ^ nat k"
  by (simp add: power_int_def)

lemma powi_neg: "0 \<le> k \<Longrightarrow> (2::rat) powi (- k) = 1 / 2 ^ nat k"
  by (simp add: power_int_def inverse_eq_divide power_one_over)

lemma floor_log2_bounds:
  assumes "0 < x"
  shows "2 powi (floor_log2 x) \<le> x" and "x < 2 powi (floor_log2 x + 1)"
proof -
  have "2 powi (floor_log2 x) \<le> x \<and> x < 2 powi (floor_log2 x + 1)"
  proof (cases "1 \<le> x")
    case True
    define n where "n = \<lfloor>x\<rfloor>"
    have n: "0 < n" using True by (simp add: n_def)
    have b1: "1 \<le> bitlen n" using n bitlen_eq_zero_iff [of n] bitlen_nonneg [of n] by linarith
    have k: "floor_log2 x = bitlen n - 1" using True by (simp add: floor_log2_def n_def)
    from bitlen_bounds [OF n] have lo: "2 ^ nat (bitlen n - 1) \<le> n" and hi: "n < 2 ^ nat (bitlen n)"
      by simp_all
    have "(of_int (2 ^ nat (bitlen n - 1)) :: rat) \<le> of_int n" using lo by (simp only: of_int_le_iff)
    also have "\<dots> \<le> x" by (simp add: n_def)
    finally have l: "(2::rat) ^ nat (bitlen n - 1) \<le> x" by simp
    have "n + 1 \<le> 2 ^ nat (bitlen n)" using hi by simp
    then have "(of_int (n + 1) :: rat) \<le> of_int (2 ^ nat (bitlen n))" by (simp only: of_int_le_iff)
    moreover have "x < of_int (n + 1)" unfolding n_def by linarith
    ultimately have h: "x < (2::rat) ^ nat (bitlen n)" by simp
    show ?thesis using l h b1 by (simp add: k powi_nat)
  next
    case False
    define m where "m = \<lceil>1 / x\<rceil> - 1"
    have inv: "1 < 1 / x" using False assms by simp
    then have "1 < \<lceil>1 / x\<rceil>" by (simp add: less_ceiling_iff)
    then have m: "0 < m" by (simp add: m_def)
    have b1: "1 \<le> bitlen m" using m bitlen_eq_zero_iff [of m] bitlen_nonneg [of m] by linarith
    have k: "floor_log2 x = - bitlen m" using False by (simp add: floor_log2_def m_def)
    from bitlen_bounds [OF m] have lo: "2 ^ nat (bitlen m - 1) \<le> m" and hi: "m < 2 ^ nat (bitlen m)"
      by simp_all
    have mlt: "of_int m < 1 / x" unfolding m_def by linarith
    have mge: "1 / x \<le> of_int (m + 1)" unfolding m_def by linarith
    have "m + 1 \<le> 2 ^ nat (bitlen m)" using hi by simp
    then have "(of_int (m + 1) :: rat) \<le> of_int (2 ^ nat (bitlen m))" by (simp only: of_int_le_iff)
    then have "1 / x \<le> (2::rat) ^ nat (bitlen m)" using mge by simp
    then have l: "1 / (2::rat) ^ nat (bitlen m) \<le> x"
      using assms by (simp add: field_simps)
    have "(of_int (2 ^ nat (bitlen m - 1)) :: rat) \<le> of_int m" using lo by (simp only: of_int_le_iff)
    then have "(2::rat) ^ nat (bitlen m - 1) \<le> of_int m" by simp
    then have "(2::rat) ^ nat (bitlen m - 1) < 1 / x" using mlt by linarith
    then have h: "x < 1 / (2::rat) ^ nat (bitlen m - 1)"
      using assms by (simp add: field_simps)
    have e: "- bitlen m + 1 = - (bitlen m - 1)" by simp
    have p1: "(2::rat) powi (- bitlen m) = 1 / 2 ^ nat (bitlen m)"
      using b1 by (intro powi_neg) simp
    have p2: "(2::rat) powi (- (bitlen m - 1)) = 1 / 2 ^ nat (bitlen m - 1)"
      using b1 by (intro powi_neg) simp
    show ?thesis
      using l h unfolding k e p1 p2 by simp
  qed
  then show "2 powi (floor_log2 x) \<le> x" and "x < 2 powi (floor_log2 x + 1)" by simp_all
qed

lemma powi_less_exp:
  assumes "(2::rat) powi a < 2 powi b"
  shows "a < b"
proof (rule ccontr)
  assume "\<not> a < b"
  then have "b \<le> a" by simp
  then have "(2::rat) powi b \<le> 2 powi a" by (intro power_int_increasing) simp_all
  then show False using assms by simp
qed

lemma floor_log2_eq:
  assumes "0 < x" and "2 powi j \<le> x" and "x < 2 powi (j + 1)"
  shows "floor_log2 x = j"
proof -
  note b = floor_log2_bounds [OF assms(1)]
  have "(2::rat) powi (floor_log2 x) < 2 powi (j + 1)" using b(1) assms(3) by linarith
  then have 1: "floor_log2 x < j + 1" by (rule powi_less_exp)
  have "(2::rat) powi j < 2 powi (floor_log2 x + 1)" using b(2) assms(2) by linarith
  then have 2: "j < floor_log2 x + 1" by (rule powi_less_exp)
  show ?thesis using 1 2 by simp
qed

lemma round_half_even_cases:
  "round_half_even y = \<lfloor>y\<rfloor> \<and> y - of_int \<lfloor>y\<rfloor> \<le> 1 / 2 \<or>
   round_half_even y = \<lfloor>y\<rfloor> + 1 \<and> 1 / 2 \<le> y - of_int \<lfloor>y\<rfloor>"
  by (auto simp: round_half_even_def Let_def)

lemma round_half_even_error: "\<bar>of_int (round_half_even y) - y\<bar> \<le> 1 / 2"
proof -
  have f: "of_int \<lfloor>y\<rfloor> \<le> y" "y < of_int \<lfloor>y\<rfloor> + 1" by linarith+
  show ?thesis using round_half_even_cases [of y] f by auto
qed

lemma round_half_even_le:
  assumes "y \<le> of_int m"
  shows "round_half_even y \<le> m"
proof -
  have fm: "\<lfloor>y\<rfloor> \<le> m" using assms by (simp add: floor_le_iff)
  from round_half_even_cases [of y] show ?thesis
  proof
    assume "round_half_even y = \<lfloor>y\<rfloor> \<and> y - of_int \<lfloor>y\<rfloor> \<le> 1 / 2"
    then show ?thesis using fm by simp
  next
    assume a: "round_half_even y = \<lfloor>y\<rfloor> + 1 \<and> 1 / 2 \<le> y - of_int \<lfloor>y\<rfloor>"
    then have "of_int \<lfloor>y\<rfloor> < y" by linarith
    then have "(of_int \<lfloor>y\<rfloor> :: rat) < of_int m" using assms by linarith
    then have "\<lfloor>y\<rfloor> < m" by (simp only: of_int_less_iff)
    then show ?thesis using a by simp
  qed
qed

lemma round_half_even_nonneg: "0 \<le> y \<Longrightarrow> 0 \<le> round_half_even y"
  using round_half_even_cases [of y] by auto

lemma powi_split: "(2::rat) powi (52 - k) * 2 powi (k - 52) = 1"
proof -
  have "(2::rat) powi (52 - k) * 2 powi (k - 52) = 2 powi ((52 - k) + (k - 52))"
    by (subst power_int_add) simp_all
  then show ?thesis by simp
qed

lemma double_pos_def:
  assumes "0 < x"
  shows "double x = of_int (round_half_even (x * 2 powi (52 - floor_log2 x))) * 2 powi (floor_log2 x - 52)"
  using assms by (simp add: double_def)

lemma double_zero: "double 0 = 0"
  by (simp add: double_def)

lemma double_error:
  assumes "0 < x"
  shows "\<bar>double x - x\<bar> \<le> x / 2 ^ 53"
proof -
  define k where "k = floor_log2 x"
  define y where "y = x * 2 powi (52 - k)"
  define s where "s = (2::rat) powi (k - 52)"
  have s: "0 < s" by (simp add: s_def)
  have ys: "y * s = x" unfolding y_def s_def using powi_split [of k] by (simp add: mult.assoc)
  have d: "double x = of_int (round_half_even y) * s"
    using assms by (simp add: double_pos_def k_def y_def s_def)
  have "double x - x = (of_int (round_half_even y) - y) * s" using d ys by (simp add: algebra_simps)
  then have "\<bar>double x - x\<bar> = \<bar>of_int (round_half_even y) - y\<bar> * s"
    using s by (simp add: abs_mult)
  also have "\<dots> \<le> (1 / 2) * s" using round_half_even_error [of y] s by (intro mult_right_mono) simp_all
  also have "\<dots> \<le> x / 2 ^ 53"
  proof -
    have "(2::rat) powi k = 2 powi (k - 52) * 2 powi 52" by (subst power_int_add [symmetric]) simp_all
    then have "(2::rat) powi k = s * 2 ^ 52" by (simp add: s_def)
    moreover have "2 powi k \<le> x" unfolding k_def by (rule floor_log2_bounds [OF assms])
    ultimately have "s * 2 ^ 52 \<le> x" by simp
    then show ?thesis by (simp add: field_simps)
  qed
  finally show ?thesis .
qed

lemma double_nonneg: "0 \<le> x \<Longrightarrow> 0 \<le> double x"
proof (cases "x = 0")
  case True
  then show ?thesis by (simp add: double_zero)
next
  case False
  assume "0 \<le> x"
  then have x: "0 < x" using False by simp
  have "0 \<le> x * 2 powi (52 - floor_log2 x)" using x by simp
  then have "0 \<le> round_half_even (x * 2 powi (52 - floor_log2 x))" by (rule round_half_even_nonneg)
  then show ?thesis using x by (simp add: double_pos_def)
qed

lemma double_pos: "0 < x \<Longrightarrow> 0 < double x"
proof -
  assume x: "0 < x"
  have "x / 2 ^ 53 < x" using x by (simp add: field_simps)
  then show ?thesis using double_error [OF x] by linarith
qed

lemma double_le_int:
  assumes "0 \<le> x" and "x \<le> of_int n" and "x < 2 ^ 53"
  shows "double x \<le> of_int n"
proof (cases "x = 0")
  case True
  then show ?thesis using assms by (simp add: double_zero)
next
  case False
  then have x: "0 < x" using assms(1) by simp
  define k where "k = floor_log2 x"
  have "(2::rat) powi k \<le> x" unfolding k_def by (rule floor_log2_bounds [OF x])
  then have "(2::rat) powi k < 2 powi 53" using assms(3) by simp
  then have k: "k < 53" by (rule powi_less_exp)
  define N where "N = (2::int) ^ nat (52 - k)"
  have N: "(2::rat) powi (52 - k) = of_int N" using k by (simp add: N_def powi_nat)
  have Np: "0 < N" by (simp add: N_def)
  have inv: "(2::rat) powi (k - 52) = 1 / of_int N"
    using powi_split [of k] Np unfolding N by (simp add: field_simps)
  have "x * of_int N \<le> of_int n * of_int N" using assms(2) Np by (intro mult_right_mono) simp_all
  then have "x * of_int N \<le> of_int (n * N)" by simp
  then have "round_half_even (x * of_int N) \<le> n * N" by (rule round_half_even_le)
  then have "(of_int (round_half_even (x * of_int N)) :: rat) \<le> of_int (n * N)"
    by (simp only: of_int_le_iff)
  then have "(of_int (round_half_even (x * of_int N)) :: rat) / of_int N \<le> of_int n"
    using Np by (simp add: field_simps)
  then show ?thesis using x by (simp add: double_pos_def k_def [symmetric] N inv)
qed

lemma double_tie_1024:
  assumes "1024 < x" and "x \<le> 1024 + 1024 / 2 ^ 53"
  shows "double x = 1024"
proof -
  have x: "0 < x" using assms(1) by simp
  have "(2::rat) powi 10 \<le> x" using assms(1) by simp
  moreover have "x < (2::rat) powi (10 + 1)" using assms(2) by simp
  ultimately have k: "floor_log2 x = 10" by (rule floor_log2_eq [OF x])
  define y where "y = x * 2 ^ 42"
  have lo: "2 ^ 52 < y" using assms(1) by (simp add: y_def)
  have hi: "y \<le> 2 ^ 52 + 1 / 2" using assms(2) by (simp add: y_def)
  have fl: "\<lfloor>y\<rfloor> = 2 ^ 52"
  proof (rule floor_unique)
    show "of_int (2 ^ 52) \<le> y" using lo by simp
    show "y < of_int (2 ^ 52) + 1" using hi by simp
  qed
  have r: "round_half_even y = 2 ^ 52"
    using hi by (simp add: round_half_even_def fl Let_def)
  have "double x = of_int (round_half_even y) * 2 powi (- 42)"
    using x by (simp add: double_pos_def k y_def)
  then show ?thesis by (simp add: r power_int_minus)
qed

lemma double_le_1024:
  assumes "0 \<le> x" and "x \<le> 1024 + 1024 / 2 ^ 53"
  shows "double x \<le> 1024"
proof (cases "x \<le> 1024")
  case True
  then have "x \<le> of_int 1024" by simp
  moreover have "x < 2 ^ 53" using True by simp
  ultimately have "double x \<le> of_int 1024" using assms(1) by (intro double_le_int)
  then show ?thesis by simp
next
  case False
  then show ?thesis using double_tie_1024 [of x] assms(2) by simp
qed

text \<open>Two rounded operations: a rounded factor times an exact one, rounded again.\<close>

lemma two_roundings:
  assumes a: "0 \<le> a" and c: "0 \<le> c" and r: "\<bar>r - a\<bar> \<le> a / 2 ^ 53" and r0: "0 \<le> r"
  shows "\<bar>double (r * c) - a * c\<bar> \<le> a * c / 2 ^ 51"
proof -
  have 1: "\<bar>r * c - a * c\<bar> \<le> a * c / 2 ^ 53"
  proof -
    have "\<bar>r * c - a * c\<bar> = \<bar>r - a\<bar> * c" using c by (simp add: abs_mult flip: left_diff_distrib)
    also have "\<dots> \<le> (a / 2 ^ 53) * c" using r c by (intro mult_right_mono)
    finally show ?thesis by simp
  qed
  have rc: "0 \<le> r * c" using r0 c by simp
  have 2: "\<bar>double (r * c) - r * c\<bar> \<le> r * c / 2 ^ 53"
  proof (cases "r * c = 0")
    case True
    show ?thesis unfolding True by (simp add: double_zero)
  next
    case False
    define z where "z = r * c"
    have "0 \<le> z" "z \<noteq> 0" using rc False by (simp_all add: z_def)
    then have "0 < z" by linarith
    then have "0 < r * c" by (simp only: z_def)
    then show ?thesis by (rule double_error)
  qed
  have 3: "r * c \<le> a * c + a * c / 2 ^ 53" using 1 by linarith
  have "r * c / 2 ^ 53 \<le> (a * c + a * c / 2 ^ 53) / 2 ^ 53"
    using 3 by (intro divide_right_mono) simp_all
  then have 4: "\<bar>double (r * c) - r * c\<bar> \<le> (a * c + a * c / 2 ^ 53) / 2 ^ 53" using 2 by linarith
  have ac: "0 \<le> a * c" using a c by simp
  have 5: "a * c / 2 ^ 53 + (a * c + a * c / 2 ^ 53) / 2 ^ 53 \<le> a * c / 2 ^ 51"
    using ac by (simp add: field_simps)
  show ?thesis using 1 4 5 by linarith
qed

lemma double_quotient_error:
  fixes p q :: nat
  assumes "0 < q"
  shows "\<bar>double (of_nat p / of_nat q) - of_nat p / of_nat q\<bar> \<le> (of_nat p / of_nat q) / 2 ^ 53"
    and "0 \<le> double (of_nat p / of_nat q)"
proof -
  have n: "(0::rat) \<le> of_nat p / of_nat q" by simp
  show "\<bar>double (of_nat p / of_nat q) - of_nat p / of_nat q\<bar> \<le> (of_nat p / of_nat q) / 2 ^ 53"
  proof (cases "p = 0")
    case True
    then show ?thesis by (simp add: double_zero)
  next
    case False
    then have "(0::rat) < of_nat p / of_nat q" using assms by simp
    then show ?thesis by (rule double_error)
  qed
  show "0 \<le> double (of_nat p / of_nat q)" using n by (rule double_nonneg)
qed

lemma double_quotient_le_1:
  fixes p q :: nat
  assumes "p \<le> q" and "0 < q"
  shows "double (of_nat p / of_nat q) \<le> 1"
proof -
  have "(of_nat p :: rat) \<le> of_nat q" using assms(1) by simp
  then have le: "(of_nat p :: rat) / of_nat q \<le> 1" using assms(2) by (simp add: field_simps)
  then have "(of_nat p :: rat) / of_nat q \<le> of_int 1" by simp
  moreover have "(of_nat p :: rat) / of_nat q < 2 ^ 53" using le by simp
  moreover have "(0::rat) \<le> of_nat p / of_nat q" by simp
  ultimately have "double (of_nat p / of_nat q) \<le> of_int 1" by (intro double_le_int)
  then show ?thesis by simp
qed

subsection \<open>Canvas sizes and the scaled dimensions\<close>

lemma to_unsigned_long_small:
  assumes "0 \<le> x" and "x \<le> 1024"
  shows "to_unsigned_long x = nat \<lfloor>x\<rfloor>"
proof -
  have "0 \<le> \<lfloor>x\<rfloor>" using assms(1) by simp
  moreover have "\<lfloor>x\<rfloor> \<le> 1024" using assms(2) by (simp add: floor_le_iff)
  ultimately have "\<lfloor>x\<rfloor> mod 2 ^ 32 = \<lfloor>x\<rfloor>" by simp
  then show ?thesis using assms(1) by (simp add: to_unsigned_long_def)
qed


lemma large_run:
  assumes rd: "file_read f = ReaderLoad (Some imgUrl)" and ne: "imgUrl \<noteq> []"
    and dec: "file_decode f = ImageLoad width height"
    and ctx: "getContext2d b"
    and big: "MAX_DIMENSION < width \<or> MAX_DIMENSION < height"
  shows "fileToBase64 b f =
       Inr \<lparr>base64 = at_index (split_comma (toDataURL b (resize_canvas imgUrl (scaled_dimensions width height))
                       (outputMimeType f) (Some (quality f)))) 1,
            mimeType = outputMimeType f\<rparr>"
proof -
  have nb: "(width \<le> MAX_DIMENSION \<and> height \<le> MAX_DIMENSION) = False" using big by auto
  show ?thesis
    unfolding fileToBase64_def using rd ne dec ctx by (simp add: Let_def nb)
qed

lemma nat_floor_le:
  fixes x :: rat
  assumes "x \<le> of_nat n"
  shows "nat \<lfloor>x\<rfloor> \<le> n"
proof -
  have "\<lfloor>x\<rfloor> \<le> \<lfloor>(of_nat n :: rat)\<rfloor>" using assms by (rule floor_mono)
  then have "\<lfloor>x\<rfloor> \<le> int n" by simp
  then show ?thesis by simp
qed

lemma scaled_wide:
  assumes "height < width" and "MAX_DIMENSION < width"
  shows "scaled_dimensions width height =
           (1024, js_times (of_nat height) (js_divide 1024 (of_nat width)))"
  using assms by (simp add: scaled_dimensions_def MAX_DIMENSION_def)

lemma scaled_tall:
  assumes "\<not> height < width" and "MAX_DIMENSION < height"
  shows "scaled_dimensions width height =
           (js_times (of_nat width) (js_divide 1024 (of_nat height)), 1024)"
  using assms by (simp add: scaled_dimensions_def MAX_DIMENSION_def)

text \<open>
  The side that is not set to 1024: \<open>a\<close> is that side of the image, \<open>l\<close> the larger
  one.
\<close>

lemma scaled_other:
  fixes a l :: nat
  assumes al: "a \<le> l" and l1: "1024 < l" and l2: "l < 2 ^ 32"
  defines "v \<equiv> js_times (of_nat a) (js_divide 1024 (of_nat l))"
  shows "0 \<le> v" and "v \<le> 1024" and "v \<le> of_nat a"
    and "\<bar>v - of_nat a * (1024 / of_nat l)\<bar> \<le> of_nat a * (1024 / of_nat l) / 2 ^ 51"
proof -
  define r where "r = double (of_nat 1024 / of_nat l)"
  have lp: "0 < l" using l1 by simp
  have lr: "(0::rat) < of_nat l" using lp by simp
  have re: "\<bar>r - of_nat 1024 / of_nat l\<bar> \<le> (of_nat 1024 / of_nat l) / 2 ^ 53"
    unfolding r_def by (rule double_quotient_error [OF lp])
  have r0: "0 \<le> r" unfolding r_def by (rule double_quotient_error [OF lp])
  have r1: "r \<le> 1" unfolding r_def using l1 by (intro double_quotient_le_1) simp_all
  have v: "v = double (r * of_nat a)"
    by (simp add: v_def js_times_def js_divide_def r_def mult.commute)
  have x0: "0 \<le> r * of_nat a" using r0 by simp
  show "0 \<le> v" unfolding v using x0 by (rule double_nonneg)
  have xa: "r * of_nat a \<le> of_nat a"
  proof -
    have "r * of_nat a \<le> 1 * of_nat a" using r1 by (intro mult_right_mono) simp_all
    then show ?thesis by simp
  qed
  have a32: "(of_nat a :: rat) < 2 ^ 32"
  proof -
    have "a < 2 ^ 32" using al l2 by simp
    then have "(of_nat a :: rat) < of_nat (2 ^ 32)" by (simp only: of_nat_less_iff)
    then show ?thesis by simp
  qed
  have "double (r * of_nat a) \<le> of_int (int a)"
  proof (rule double_le_int [OF x0])
    show "r * of_nat a \<le> of_int (int a)" using xa by simp
    show "r * of_nat a < 2 ^ 53" using xa a32 by simp
  qed
  then show "v \<le> of_nat a" unfolding v by simp
  have rl: "r * of_nat l \<le> 1024 + 1024 / 2 ^ 53"
  proof -
    have "r \<le> of_nat 1024 / of_nat l + (of_nat 1024 / of_nat l) / 2 ^ 53" using re by linarith
    then have "r * of_nat l \<le> (of_nat 1024 / of_nat l + (of_nat 1024 / of_nat l) / 2 ^ 53) * of_nat l"
      using lr by (intro mult_right_mono) simp_all
    also have "\<dots> = 1024 + 1024 / 2 ^ 53" using lr by (simp add: field_simps)
    finally show ?thesis .
  qed
  have "r * of_nat a \<le> r * of_nat l" using r0 al by (intro mult_left_mono) simp_all
  then have "r * of_nat a \<le> 1024 + 1024 / 2 ^ 53" using rl by linarith
  then show "v \<le> 1024" unfolding v using x0 by (intro double_le_1024)
  have "\<bar>double (r * of_nat a) - (of_nat 1024 / of_nat l) * of_nat a\<bar>
          \<le> (of_nat 1024 / of_nat l) * of_nat a / 2 ^ 51"
    using re r0 by (intro two_roundings) simp_all
  then show "\<bar>v - of_nat a * (1024 / of_nat l)\<bar> \<le> of_nat a * (1024 / of_nat l) / 2 ^ 51"
    unfolding v by (simp add: mult.commute)
qed

lemma scaled_dimensions_facts:
  assumes big: "MAX_DIMENSION < width \<or> MAX_DIMENSION < height"
    and range: "width < 2 ^ 32" "height < 2 ^ 32"
    and wh: "scaled_dimensions width height = (w, h)"
  shows "max w h = 1024 \<and>
     (height < width \<longrightarrow> w = 1024) \<and> (\<not> height < width \<longrightarrow> h = 1024) \<and>
     \<bar>w - of_nat width * (1024 / of_nat (max width height))\<bar>
       \<le> of_nat width * (1024 / of_nat (max width height)) / 2 ^ 51 \<and>
     \<bar>h - of_nat height * (1024 / of_nat (max width height))\<bar>
       \<le> of_nat height * (1024 / of_nat (max width height)) / 2 ^ 51 \<and>
     0 \<le> w \<and> 0 \<le> h \<and>
     w \<le> 1024 \<and> h \<le> 1024 \<and> w \<le> of_nat width \<and> h \<le> of_nat height"
proof (cases "height < width")
  case True
  then have m: "MAX_DIMENSION < width" using big by auto
  then have w1: "(1024::nat) < width" by (simp add: MAX_DIMENSION_def)
  have eq: "w = 1024" "h = js_times (of_nat height) (js_divide 1024 (of_nat width))"
    using scaled_wide [OF True m] wh by simp_all
  have mx: "max width height = width" using True by simp
  have hle: "height \<le> width" using True by simp
  note o = scaled_other [OF hle w1 range(1), folded eq(2)]
  have e: "(of_nat width :: rat) * (1024 / of_nat width) = 1024" using w1 by simp
  show ?thesis using o True w1 by (simp add: eq(1) mx e)
next
  case False
  then have m: "MAX_DIMENSION < height" using big by auto
  then have h1: "(1024::nat) < height" by (simp add: MAX_DIMENSION_def)
  have eq: "w = js_times (of_nat width) (js_divide 1024 (of_nat height))" "h = 1024"
    using scaled_tall [OF False m] wh by simp_all
  have mx: "max width height = height" using False by simp
  have wle: "width \<le> height" using False by simp
  note o = scaled_other [OF wle h1 range(2), folded eq(1)]
  have e: "(of_nat height :: rat) * (1024 / of_nat height) = 1024" using h1 by simp
  show ?thesis using o False h1 by (simp add: eq(2) mx e)
qed

subsection \<open>The editor's dimensions\<close>







subsection \<open>Data URLs\<close>

lemma split_comma_no_comma:
  "CHR '','' \<notin> set s \<Longrightarrow> split_comma s = [s]"
  by (induction s) auto

lemma split_comma_first:
  "CHR '','' \<notin> set s \<Longrightarrow> split_comma (s @ CHR '','' # rest) = s # split_comma rest"
  by (induction s) auto

lemma split_data_url:
  assumes "CHR '','' \<notin> set t" and "CHR '','' \<notin> set payload"
  shows "at_index (split_comma (''data:'' @ t @ '';base64,'' @ payload)) 1 = Some payload"
proof -
  have eq: "''data:'' @ t @ '';base64,'' @ payload = (''data:'' @ t @ '';base64'') @ CHR '','' # payload"
    by simp
  have nc: "CHR '','' \<notin> set (''data:'' @ t @ '';base64'')" using assms(1) by simp
  show ?thesis
    unfolding eq split_comma_first [OF nc] split_comma_no_comma [OF assms(2)]
    by (simp add: at_index_def)
qed

lemma small_run:
  assumes rd: "file_read f = ReaderLoad (Some imgUrl)" and ne: "imgUrl \<noteq> []"
    and dec: "file_decode f = ImageLoad width height"
    and small: "width \<le> MAX_DIMENSION \<and> height \<le> MAX_DIMENSION"
  shows "fileToBase64 b f = Inr \<lparr>base64 = at_index (split_comma imgUrl) 1, mimeType = file_type f\<rparr>"
  unfolding fileToBase64_def using rd ne dec small by simp

subsection \<open>The first part carrying data\<close>

lemma first_inline_data_None:
  "first_inline_data ps = None \<longleftrightarrow> (\<forall>part \<in> set ps. \<not> truthy (inline_data part))"
  by (induction ps) (auto simp: truthy_def split: option.splits)

lemma first_inline_data_Some:
  "first_inline_data ps = Some d \<longleftrightarrow>
     (\<exists>i < length ps. inline_data (ps ! i) = Some d \<and> d \<noteq> [] \<and>
        (\<forall>j < i. \<not> truthy (inline_data (ps ! j))))"
proof (induction ps)
  case Nil
  then show ?case by simp
next
  case (Cons part rest)
  show ?case
  proof (cases "truthy (inline_data part)")
    case True
    then obtain e where e: "inline_data part = Some e" "e \<noteq> []"
      by (auto simp: truthy_def split: option.splits)
    then have l: "first_inline_data (part # rest) = Some e" by simp
    show ?thesis
    proof
      assume "first_inline_data (part # rest) = Some d"
      then have "d = e" using l by simp
      then show "\<exists>i < length (part # rest). inline_data ((part # rest) ! i) = Some d \<and> d \<noteq> [] \<and>
        (\<forall>j < i. \<not> truthy (inline_data ((part # rest) ! j)))"
        using e by (intro exI [of _ 0]) simp
    next
      assume "\<exists>i < length (part # rest). inline_data ((part # rest) ! i) = Some d \<and> d \<noteq> [] \<and>
        (\<forall>j < i. \<not> truthy (inline_data ((part # rest) ! j)))"
      then obtain i where i: "i < length (part # rest)" "inline_data ((part # rest) ! i) = Some d"
        "\<forall>j < i. \<not> truthy (inline_data ((part # rest) ! j))" by blast
      have "i = 0"
      proof (rule ccontr)
        assume "i \<noteq> 0"
        then have "0 < i" by simp
        then have "\<not> truthy (inline_data ((part # rest) ! 0))" using i(3) by blast
        then show False using True by simp
      qed
      then have "inline_data part = Some d" using i(2) by simp
      then show "first_inline_data (part # rest) = Some d" using l e by simp
    qed
  next
    case False
    then have l: "first_inline_data (part # rest) = first_inline_data rest"
      by (auto simp: truthy_def split: option.splits)
    show ?thesis
    proof
      assume "first_inline_data (part # rest) = Some d"
      then have "first_inline_data rest = Some d" using l by simp
      then obtain i where i: "i < length rest" "inline_data (rest ! i) = Some d" "d \<noteq> []"
        "\<forall>j < i. \<not> truthy (inline_data (rest ! j))" using Cons.IH by blast
      have "\<forall>j < Suc i. \<not> truthy (inline_data ((part # rest) ! j))"
        using False i(4) by (auto simp: less_Suc_eq_0_disj)
      then show "\<exists>i < length (part # rest). inline_data ((part # rest) ! i) = Some d \<and> d \<noteq> [] \<and>
        (\<forall>j < i. \<not> truthy (inline_data ((part # rest) ! j)))"
        using i by (intro exI [of _ "Suc i"]) simp
    next
      assume "\<exists>i < length (part # rest). inline_data ((part # rest) ! i) = Some d \<and> d \<noteq> [] \<and>
        (\<forall>j < i. \<not> truthy (inline_data ((part # rest) ! j)))"
      then obtain i where i: "i < length (part # rest)" "inline_data ((part # rest) ! i) = Some d"
        "d \<noteq> []" "\<forall>j < i. \<not> truthy (inline_data ((part # rest) ! j))" by blast
      have "i \<noteq> 0"
      proof
        assume "i = 0"
        then have "inline_data part = Some d" using i(2) by simp
        then show False using i(3) False by (simp add: truthy_def)
      qed
      then obtain k where k: "i = Suc k" by (cases i) auto
      have "\<forall>j < k. \<not> truthy (inline_data (rest ! j))"
      proof (intro allI impI)
        fix j assume "j < k"
        then have "Suc j < i" using k by simp
        then have "\<not> truthy (inline_data ((part # rest) ! Suc j))" using i(4) by blast
        then show "\<not> truthy (inline_data (rest ! j))" by simp
      qed
      then have "first_inline_data rest = Some d"
        using Cons.IH i k by auto
      then show "first_inline_data (part # rest) = Some d" using l by simp
    qed
  qed
qed

lemma first_candidate_parts_subset:
  "set (first_candidate_parts r) \<subseteq> set (all_parts r)"
proof (cases "candidates r")
  case None
  then show ?thesis by (simp add: first_candidate_parts_def)
next
  case (Some cs)
  show ?thesis
  proof (cases cs)
    case Nil
    then show ?thesis using Some by (simp add: first_candidate_parts_def at_index_def)
  next
    case (Cons c rest)
    then have "first_candidate_parts r = candidate_parts c"
      using Some by (simp add: first_candidate_parts_def at_index_def candidate_parts_def)
    then show ?thesis using Some Cons by (simp add: all_parts_def)
  qed
qed

lemma swap_result:
  "snd (swapCharactersInImage api p) =
     (case api (swap_request p) of
        Inl e \<Rightarrow> Inl (swap_catch e)
      | Inr r \<Rightarrow>
          (case first_inline_data (first_candidate_parts r) of
             Some d \<Rightarrow> Inr d
           | None \<Rightarrow> Inl (swap_catch (ErrorObject
               ''The AI did not return an image. It might have refused the request due to safety policies or an inability to process the images.''))))"
  by (simp add: swapCharactersInImage_def)

lemma inpaint_result:
  "snd (inpaintImage api q) =
     (case api (inpaint_request q) of
        Inl e \<Rightarrow> Inl (inpaint_catch e)
      | Inr r \<Rightarrow>
          (case first_inline_data (first_candidate_parts r) of
             Some d \<Rightarrow> Inr d
           | None \<Rightarrow> Inl (inpaint_catch (ErrorObject
               ''The AI did not return an edited image. It may have refused the request.''))))"
  by (simp add: inpaintImage_def)

lemma swap_resolves_iff:
  "snd (swapCharactersInImage api p) = Inr d \<longleftrightarrow>
     (\<exists>r. api (swap_request p) = Inr r \<and> first_inline_data (first_candidate_parts r) = Some d)"
  unfolding swap_result by (auto split: sum.splits option.splits)

lemma inpaint_resolves_iff:
  "snd (inpaintImage api q) = Inr d \<longleftrightarrow>
     (\<exists>r. api (inpaint_request q) = Inr r \<and> first_inline_data (first_candidate_parts r) = Some d)"
  unfolding inpaint_result by (auto split: sum.splits option.splits)

lemma swap_rejects:
  assumes "api (swap_request p) = Inr r" and "\<forall>part \<in> set (all_parts r). \<not> truthy (inline_data part)"
  shows "\<exists>m. snd (swapCharactersInImage api p) = Inl m"
proof -
  have "\<forall>part \<in> set (first_candidate_parts r). \<not> truthy (inline_data part)"
    using assms(2) first_candidate_parts_subset by blast
  then have "first_inline_data (first_candidate_parts r) = None"
    by (simp add: first_inline_data_None)
  then show ?thesis unfolding swap_result using assms(1) by simp
qed

lemma inpaint_rejects:
  assumes "api (inpaint_request q) = Inr r" and "\<forall>part \<in> set (all_parts r). \<not> truthy (inline_data part)"
  shows "\<exists>m. snd (inpaintImage api q) = Inl m"
proof -
  have "\<forall>part \<in> set (first_candidate_parts r). \<not> truthy (inline_data part)"
    using assms(2) first_candidate_parts_subset by blast
  then have "first_inline_data (first_candidate_parts r) = None"
    by (simp add: first_inline_data_None)
  then show ?thesis unfolding inpaint_result using assms(1) by simp
qed

subsection \<open>Slots of the prompt\<close>

lemma sublist_concat_member:
  "x \<in> set xss \<Longrightarrow> sublist x (concat xss)"
proof (induction xss)
  case Nil
  then show ?case by simp
next
  case (Cons y ys)
  show ?case
  proof (cases "x = y")
    case True
    then show ?thesis by (simp add: sublist_append_rightI)
  next
    case False
    then have "sublist x (concat ys)" using Cons by simp
    then obtain ps ss where "concat ys = ps @ x @ ss" by (auto simp: sublist_def)
    then have "concat (y # ys) = (y @ ps) @ x @ ss" by simp
    then show ?thesis unfolding sublist_def by blast
  qed
qed

lemma slots_in_prompt:
  "sublist (watermarkInstruction p) (swap_prompt p)"
  "sublist (styleInstruction p) (swap_prompt p)"
  "sublist (timeInstruction p) (swap_prompt p)"
  "sublist (atmosphereInstruction p) (swap_prompt p)"
  "sublist (negativeInstruction p) (swap_prompt p)"
  unfolding swap_prompt_def by (rule sublist_concat_member, simp)+

subsection \<open>Headings of the prompt\<close>

lemma scan_run_append: "scan_run x y q (a @ b) = scan_run x y (scan_run x y q a) b"
  by (induction a arbitrary: q) simp_all

lemma scan_run_Found: "scan_run x y Found s = Found"
  by (induction s) simp_all

lemma scan_run_heading:
  assumes "x \<noteq> CHR ''*''" and "y \<noteq> CHR ''*''"
  shows "scan_run x y q (CHR ''*'' # CHR ''*'' # x # y # s) = Found"
  using assms by (cases q) (simp_all add: scan_run_Found)

lemma sublist_scan_run:
  assumes "x \<noteq> CHR ''*''" and "y \<noteq> CHR ''*''"
    and "sublist [CHR ''*'', CHR ''*'', x, y] s"
  shows "scan_run x y Idle s = Found"
proof -
  from assms(3) obtain ps ss where s: "s = ps @ [CHR ''*'', CHR ''*'', x, y] @ ss"
    by (auto simp: sublist_def)
  show ?thesis
    unfolding s scan_run_append
    using scan_run_heading [OF assms(1,2), of "scan_run x y Idle ps" "[]"]
    by (simp add: scan_run_Found)
qed

lemma plain_Cons: "plain (c # u) \<Longrightarrow> plain u"
  by (auto simp: plain_def sublist_Cons_right)

lemma plain_stars: "plain (CHR ''*'' # CHR ''*'' # u) \<Longrightarrow> False"
  unfolding plain_def using sublist_append_rightI [of "''**''" u] by simp

lemma plain_run:
  assumes "plain u" and "q = Idle \<or> q = Star1 \<and> (u = [] \<or> hd u \<noteq> CHR ''*'')"
  shows "scan_run x y q u = Idle \<or> scan_run x y q u = Star1"
  using assms
proof (induction u arbitrary: q)
  case Nil
  then show ?case by auto
next
  case (Cons c u)
  have pu: "plain u" using Cons.prems(1) by (rule plain_Cons)
  show ?case
  proof (cases "c = CHR ''*''")
    case True
    then have q: "q = Idle" using Cons.prems(2) by auto
    have h: "u = [] \<or> hd u \<noteq> CHR ''*''"
    proof (cases u)
      case Nil
      then show ?thesis by simp
    next
      case (Cons d v)
      have "d \<noteq> CHR ''*''"
      proof
        assume "d = CHR ''*''"
        then show False using plain_stars [of v] Cons.prems(1) True \<open>u = d # v\<close> by simp
      qed
      then show ?thesis using Cons by simp
    qed
    show ?thesis using Cons.IH [OF pu, of Star1] h q True by simp
  next
    case False
    then have "scan_step x y q c = Idle" using Cons.prems(2) by auto
    then show ?thesis using Cons.IH [OF pu, of Idle] by simp
  qed
qed

lemma plain_step:
  assumes "plain u" and "c \<noteq> CHR ''*''"
  shows "scan_step x y (scan_run x y Idle u) c = Idle"
  using plain_run [OF assms(1), of Idle x y] assms(2) by auto

lemma plain_inputs_fields:
  assumes "plain_inputs p"
  shows "plain (SwapParams.characterScale p)" "plain (SwapParams.sceneComposition p)"
    "plain (SwapParams.characterAction p)" "plain (SwapParams.artStyle p)"
    "plain (SwapParams.timeOfDay p)" "plain (SwapParams.atmosphere p)"
    "plain (SwapParams.negativePrompt p)" "plain (SwapParams.aspectRatio p)"
  using assms by (simp_all add: plain_inputs_def)

lemmas scan_simps = scan_run_append plain_step

lemma time_slots:
  assumes "plain_inputs p"
  shows "scan_run (CHR ''T'') (CHR ''i'') Idle (watermarkInstruction p) = Idle"
    "scan_run (CHR ''T'') (CHR ''i'') Idle (styleInstruction p) = Idle"
    "scan_run (CHR ''T'') (CHR ''i'') Idle (atmosphereInstruction p) = Idle"
    "scan_run (CHR ''T'') (CHR ''i'') Idle (aspectRatioInstruction p) = Idle"
    "scan_run (CHR ''T'') (CHR ''i'') Idle (negativeInstruction p) = Idle"
  using plain_inputs_fields [OF assms]
  by (simp_all add: watermarkInstruction_def watermark_text_def styleInstruction_def
        style_base_def style_extra_def atmosphereInstruction_def aspectRatioInstruction_def
        negativeInstruction_def scan_simps)

lemma time_quiet:
  assumes "plain_inputs p" and "SwapParams.timeOfDay p = ''As in Scene''"
  shows "scan_run (CHR ''T'') (CHR ''i'') Idle (swap_prompt p) = Idle"
  using plain_inputs_fields [OF assms(1)] assms(2)
  by (simp add: swap_prompt_def timeInstruction_def time_slots [OF assms(1)] scan_simps)

lemma atmosphere_slots:
  assumes "plain_inputs p"
  shows "scan_run (CHR ''A'') (CHR ''t'') Idle (watermarkInstruction p) = Idle"
    "scan_run (CHR ''A'') (CHR ''t'') Idle (styleInstruction p) = Idle"
    "scan_run (CHR ''A'') (CHR ''t'') Idle (timeInstruction p) = Idle"
    "scan_run (CHR ''A'') (CHR ''t'') Idle (aspectRatioInstruction p) = Idle"
    "scan_run (CHR ''A'') (CHR ''t'') Idle (negativeInstruction p) = Idle"
  using plain_inputs_fields [OF assms]
  by (simp_all add: watermarkInstruction_def watermark_text_def styleInstruction_def
        style_base_def style_extra_def timeInstruction_def aspectRatioInstruction_def
        negativeInstruction_def scan_simps)

lemma atmosphere_quiet:
  assumes "plain_inputs p" and "SwapParams.atmosphere p = []"
  shows "scan_run (CHR ''A'') (CHR ''t'') Idle (swap_prompt p) = Idle"
  using plain_inputs_fields [OF assms(1)] assms(2)
  by (simp add: swap_prompt_def atmosphereInstruction_def atmosphere_slots [OF assms(1)] scan_simps)

lemma exclusions_slots:
  assumes "plain_inputs p"
  shows "scan_run (CHR ''E'') (CHR ''x'') Idle (watermarkInstruction p) = Idle"
    "scan_run (CHR ''E'') (CHR ''x'') Idle (styleInstruction p) = Idle"
    "scan_run (CHR ''E'') (CHR ''x'') Idle (timeInstruction p) = Idle"
    "scan_run (CHR ''E'') (CHR ''x'') Idle (atmosphereInstruction p) = Idle"
    "scan_run (CHR ''E'') (CHR ''x'') Idle (aspectRatioInstruction p) = Idle"
  using plain_inputs_fields [OF assms]
  by (simp_all add: watermarkInstruction_def watermark_text_def styleInstruction_def
        style_base_def style_extra_def timeInstruction_def aspectRatioInstruction_def
        atmosphereInstruction_def scan_simps)

lemma exclusions_quiet:
  assumes "plain_inputs p" and "SwapParams.negativePrompt p = []"
  shows "scan_run (CHR ''E'') (CHR ''x'') Idle (swap_prompt p) = Idle"
  using plain_inputs_fields [OF assms(1)] assms(2)
  by (simp add: swap_prompt_def negativeInstruction_def exclusions_slots [OF assms(1)] scan_simps)

lemma watermark_slots:
  assumes "plain_inputs p"
  shows "scan_run (CHR ''W'') (CHR ''a'') Idle (styleInstruction p) = Idle"
    "scan_run (CHR ''W'') (CHR ''a'') Idle (timeInstruction p) = Idle"
    "scan_run (CHR ''W'') (CHR ''a'') Idle (atmosphereInstruction p) = Idle"
    "scan_run (CHR ''W'') (CHR ''a'') Idle (aspectRatioInstruction p) = Idle"
    "scan_run (CHR ''W'') (CHR ''a'') Idle (negativeInstruction p) = Idle"
  using plain_inputs_fields [OF assms]
  by (simp_all add: negativeInstruction_def styleInstruction_def
        style_base_def style_extra_def timeInstruction_def aspectRatioInstruction_def
        atmosphereInstruction_def scan_simps)

lemma watermark_quiet:
  assumes "plain_inputs p" and "\<not> SwapParams.removeWatermark p"
  shows "scan_run (CHR ''W'') (CHR ''a'') Idle (swap_prompt p) = Idle"
  using plain_inputs_fields [OF assms(1)] assms(2)
  by (simp add: swap_prompt_def watermarkInstruction_def watermark_slots [OF assms(1)] scan_simps)

lemma heading_absent:
  assumes "x \<noteq> CHR ''*''" and "y \<noteq> CHR ''*''"
    and "scan_run x y Idle s = Idle"
    and "sublist (CHR ''*'' # CHR ''*'' # x # y # rest) t" and "sublist t s"
  shows False
proof -
  have "sublist [CHR ''*'', CHR ''*'', x, y] (CHR ''*'' # CHR ''*'' # x # y # rest)"
    using sublist_append_rightI [of "[CHR ''*'', CHR ''*'', x, y]" rest] by simp
  then have "sublist [CHR ''*'', CHR ''*'', x, y] s"
    using assms(4,5) by (meson sublist_order.order_trans)
  then have "scan_run x y Idle s = Found" by (rule sublist_scan_run [OF assms(1,2)])
  then show False using assms(3) by simp
qed

lemma star_free_plain: "CHR ''*'' \<notin> set u \<Longrightarrow> plain u"
proof -
  assume a: "CHR ''*'' \<notin> set u"
  show "plain u" unfolding plain_def
  proof
    assume "sublist ''**'' u"
    then have "set ''**'' \<subseteq> set u" by (rule set_mono_sublist)
    then show False using a by simp
  qed
qed

lemma style_base_no_extra: "\<not> suffix style_extra (style_base p)"
proof
  assume "suffix style_extra (style_base p)"
  then obtain zs where z: "style_base p = zs @ style_extra" by (auto simp: suffix_def)
  obtain body where e: "style_extra = body @ ''s.''"
    by (simp add: style_extra_def)
  have b: "style_base p =
      (''**Art Style:** The final image should have a '' @ SwapParams.artStyle p @ '' styl'') @ ''e.''"
    by (simp add: style_base_def)
  have "(''**Art Style:** The final image should have a '' @ SwapParams.artStyle p @ '' styl'') @ ''e.''
          = (zs @ body) @ ''s.''"
    using z unfolding e b by simp
  then have "''e.'' = ''s.''" by (subst (asm) append_eq_append_conv) simp_all
  then show False by simp
qed

lemma style_suffix_iff:
  "suffix style_extra (styleInstruction p) \<longleftrightarrow>
     toLowerCase (SwapParams.artStyle p) = ''photorealistic''"
  using style_base_no_extra [of p] by (simp add: styleInstruction_def suffix_def)

lemma no_heading:
  assumes "scan_run x y Idle s = Idle" and "x \<noteq> CHR ''*''" and "y \<noteq> CHR ''*''"
  shows "\<not> sublist (CHR ''*'' # CHR ''*'' # x # y # rest) s"
proof
  assume "sublist (CHR ''*'' # CHR ''*'' # x # y # rest) s"
  then show False using heading_absent [OF assms(2,3,1), of rest s] by simp
qed

lemma sublist_via:
  assumes "sublist a b" and "sublist b c"
  shows "sublist a c"
  using assms by (meson sublist_order.order_trans)

lemma time_in_prompt:
  assumes "plain_inputs p"
  shows "sublist (''**Time of Day:** The lighting should reflect '' @ SwapParams.timeOfDay p @ ''.'')
           (swap_prompt p) \<longleftrightarrow> SwapParams.timeOfDay p \<noteq> ''As in Scene''"
    and "sublist ''**Time of Day:**'' (swap_prompt p) \<longleftrightarrow>
           SwapParams.timeOfDay p \<noteq> ''As in Scene''"
proof -
  have "(sublist (''**Time of Day:** The lighting should reflect '' @ SwapParams.timeOfDay p @ ''.'')
           (swap_prompt p) \<longleftrightarrow> SwapParams.timeOfDay p \<noteq> ''As in Scene'') \<and>
        (sublist ''**Time of Day:**'' (swap_prompt p) \<longleftrightarrow>
           SwapParams.timeOfDay p \<noteq> ''As in Scene'')"
  proof (cases "SwapParams.timeOfDay p \<noteq> ''As in Scene''")
    case True
    then have t: "timeInstruction p =
        ''**Time of Day:** The lighting should reflect '' @ SwapParams.timeOfDay p @ ''.''"
      by (simp add: timeInstruction_def)
    have 1: "sublist (''**Time of Day:** The lighting should reflect '' @ SwapParams.timeOfDay p @ ''.'')
           (swap_prompt p)"
      using slots_in_prompt(3) [of p] unfolding t .
    have "sublist ''**Time of Day:**''
        (''**Time of Day:**'' @ '' The lighting should reflect '' @ SwapParams.timeOfDay p @ ''.'')"
      by (rule sublist_append_rightI)
    then have "sublist ''**Time of Day:**''
        (''**Time of Day:** The lighting should reflect '' @ SwapParams.timeOfDay p @ ''.'')"
      by simp
    then have 2: "sublist ''**Time of Day:**'' (swap_prompt p)" using 1 by (rule sublist_via)
    show ?thesis using True 1 2 by simp
  next
    case False
    then have q: "scan_run (CHR ''T'') (CHR ''i'') Idle (swap_prompt p) = Idle"
      using time_quiet [OF assms] by simp
    show ?thesis
      using False no_heading [OF q, of "''me of Day:** The lighting should reflect '' @ SwapParams.timeOfDay p @ ''.''"]
        no_heading [OF q, of "''me of Day:**''"]
      by simp
  qed
  then show "sublist (''**Time of Day:** The lighting should reflect '' @ SwapParams.timeOfDay p @ ''.'')
           (swap_prompt p) \<longleftrightarrow> SwapParams.timeOfDay p \<noteq> ''As in Scene''"
    and "sublist ''**Time of Day:**'' (swap_prompt p) \<longleftrightarrow>
           SwapParams.timeOfDay p \<noteq> ''As in Scene''"
    by simp_all
qed

lemma atmosphere_in_prompt:
  assumes "plain_inputs p"
  shows "sublist (''**Atmosphere:** The overall mood should be '' @ SwapParams.atmosphere p @ ''.'')
           (swap_prompt p) \<longleftrightarrow> SwapParams.atmosphere p \<noteq> []"
    and "sublist ''**Atmosphere:**'' (swap_prompt p) \<longleftrightarrow> SwapParams.atmosphere p \<noteq> []"
proof -
  have "(sublist (''**Atmosphere:** The overall mood should be '' @ SwapParams.atmosphere p @ ''.'')
           (swap_prompt p) \<longleftrightarrow> SwapParams.atmosphere p \<noteq> []) \<and>
        (sublist ''**Atmosphere:**'' (swap_prompt p) \<longleftrightarrow> SwapParams.atmosphere p \<noteq> [])"
  proof (cases "SwapParams.atmosphere p \<noteq> []")
    case True
    then have t: "atmosphereInstruction p = ''**Atmosphere:** The overall mood should be '' @ SwapParams.atmosphere p @ ''.''"
      by (simp add: atmosphereInstruction_def)
    have 1: "sublist (''**Atmosphere:** The overall mood should be '' @ SwapParams.atmosphere p @ ''.'') (swap_prompt p)"
      using slots_in_prompt(4) [of p] unfolding t .
    have "sublist ''**Atmosphere:**'' (''**Atmosphere:**'' @ '' The overall mood should be '' @ SwapParams.atmosphere p @ ''.'')"
      by (rule sublist_append_rightI)
    then have "sublist ''**Atmosphere:**'' (''**Atmosphere:** The overall mood should be '' @ SwapParams.atmosphere p @ ''.'')"
      by simp
    then have 2: "sublist ''**Atmosphere:**'' (swap_prompt p)" using 1 by (rule sublist_via)
    show ?thesis using True 1 2 by simp
  next
    case False
    then have q: "scan_run (CHR ''A'') (CHR ''t'') Idle (swap_prompt p) = Idle"
      using atmosphere_quiet [OF assms] by simp
    show ?thesis
      using False no_heading [OF q, of "''mosphere:** The overall mood should be '' @ SwapParams.atmosphere p @ ''.''"]
        no_heading [OF q, of "''mosphere:**''"]
      by simp
  qed
  then show "sublist (''**Atmosphere:** The overall mood should be '' @ SwapParams.atmosphere p @ ''.'')
           (swap_prompt p) \<longleftrightarrow> SwapParams.atmosphere p \<noteq> []"
    and "sublist ''**Atmosphere:**'' (swap_prompt p) \<longleftrightarrow> SwapParams.atmosphere p \<noteq> []"
    by simp_all
qed

lemma exclusions_in_prompt:
  assumes "plain_inputs p"
  shows "sublist (''**Exclusions:** Do not include the following elements in the image: '' @ SwapParams.negativePrompt p @ ''.'')
           (swap_prompt p) \<longleftrightarrow> SwapParams.negativePrompt p \<noteq> []"
    and "sublist ''**Exclusions:**'' (swap_prompt p) \<longleftrightarrow> SwapParams.negativePrompt p \<noteq> []"
proof -
  have "(sublist (''**Exclusions:** Do not include the following elements in the image: '' @ SwapParams.negativePrompt p @ ''.'')
           (swap_prompt p) \<longleftrightarrow> SwapParams.negativePrompt p \<noteq> []) \<and>
        (sublist ''**Exclusions:**'' (swap_prompt p) \<longleftrightarrow> SwapParams.negativePrompt p \<noteq> [])"
  proof (cases "SwapParams.negativePrompt p \<noteq> []")
    case True
    then have t: "negativeInstruction p = ''**Exclusions:** Do not include the following elements in the image: '' @ SwapParams.negativePrompt p @ ''.''"
      by (simp add: negativeInstruction_def)
    have 1: "sublist (''**Exclusions:** Do not include the following elements in the image: '' @ SwapParams.negativePrompt p @ ''.'') (swap_prompt p)"
      using slots_in_prompt(5) [of p] unfolding t .
    have "sublist ''**Exclusions:**'' (''**Exclusions:**'' @ '' Do not include the following elements in the image: '' @ SwapParams.negativePrompt p @ ''.'')"
      by (rule sublist_append_rightI)
    then have "sublist ''**Exclusions:**'' (''**Exclusions:** Do not include the following elements in the image: '' @ SwapParams.negativePrompt p @ ''.'')"
      by simp
    then have 2: "sublist ''**Exclusions:**'' (swap_prompt p)" using 1 by (rule sublist_via)
    show ?thesis using True 1 2 by simp
  next
    case False
    then have q: "scan_run (CHR ''E'') (CHR ''x'') Idle (swap_prompt p) = Idle"
      using exclusions_quiet [OF assms] by simp
    show ?thesis
      using False no_heading [OF q, of "''clusions:** Do not include the following elements in the image: '' @ SwapParams.negativePrompt p @ ''.''"]
        no_heading [OF q, of "''clusions:**''"]
      by simp
  qed
  then show "sublist (''**Exclusions:** Do not include the following elements in the image: '' @ SwapParams.negativePrompt p @ ''.'')
           (swap_prompt p) \<longleftrightarrow> SwapParams.negativePrompt p \<noteq> []"
    and "sublist ''**Exclusions:**'' (swap_prompt p) \<longleftrightarrow> SwapParams.negativePrompt p \<noteq> []"
    by simp_all
qed

lemma watermark_in_prompt:
  assumes "plain_inputs p"
  shows "sublist watermark_text (swap_prompt p) \<longleftrightarrow> SwapParams.removeWatermark p"
    and "sublist ''**Watermark Removal:**'' (swap_prompt p) \<longleftrightarrow> SwapParams.removeWatermark p"
proof -
  have w: "watermark_text = ''**Watermark Removal:**'' @ '' Identify and completely remove any watermarks, logos, or signatures from the source images. The final output must be clean.''"
    by (simp add: watermark_text_def)
  have "(sublist watermark_text (swap_prompt p) \<longleftrightarrow> SwapParams.removeWatermark p) \<and>
        (sublist ''**Watermark Removal:**'' (swap_prompt p) \<longleftrightarrow> SwapParams.removeWatermark p)"
  proof (cases "SwapParams.removeWatermark p")
    case True
    then have t: "watermarkInstruction p = watermark_text" by (simp add: watermarkInstruction_def)
    have 1: "sublist watermark_text (swap_prompt p)"
      using slots_in_prompt(1) [of p] unfolding t .
    have "sublist ''**Watermark Removal:**'' watermark_text"
      unfolding w by (rule sublist_append_rightI)
    then have 2: "sublist ''**Watermark Removal:**'' (swap_prompt p)" using 1 by (rule sublist_via)
    show ?thesis using True 1 2 by simp
  next
    case False
    then have q: "scan_run (CHR ''W'') (CHR ''a'') Idle (swap_prompt p) = Idle"
      using watermark_quiet [OF assms] by simp
    show ?thesis
      using False
        no_heading [OF q, of "''termark Removal:** Identify and completely remove any watermarks, logos, or signatures from the source images. The final output must be clean.''"]
        no_heading [OF q, of "''termark Removal:**''"]
      by (simp add: watermark_text_def)
  qed
  then show "sublist watermark_text (swap_prompt p) \<longleftrightarrow> SwapParams.removeWatermark p"
    and "sublist ''**Watermark Removal:**'' (swap_prompt p) \<longleftrightarrow> SwapParams.removeWatermark p"
    by simp_all
qed

subsection \<open>Requests sent by the handlers\<close>

lemma handleGenerate_missing:
  assumes "sceneImage st = None \<or> characterImage st = None"
  shows "handleGenerate b api st =
           (st\<lparr>error := Some ''Please upload both a scene and a character image.''\<rparr>, [])"
  using assms by (auto simp: handleGenerate_def split: option.splits)

lemma handleGenerate_sends:
  assumes "snd (handleGenerate b api st) \<noteq> []"
  shows "sceneImage st \<noteq> None \<and> characterImage st \<noteq> None"
proof (rule ccontr)
  assume "\<not> (sceneImage st \<noteq> None \<and> characterImage st \<noteq> None)"
  then have "sceneImage st = None \<or> characterImage st = None" by simp
  then have "snd (handleGenerate b api st) = []" by (simp add: handleGenerate_missing)
  then show False using assms by simp
qed

lemma handleGenerate_requests:
  assumes "sceneImage st = Some scene" and "characterImage st = Some character"
    and "fileToBase64 b scene = Inr sr" and "fileToBase64 b character = Inr cr"
  shows "snd (handleGenerate b api st) = [swap_request (swap_params st sr cr)]"
  using assms by (simp add: handleGenerate_def swapCharactersInImage_def Let_def)

lemma handleInpaint_requests:
  "snd (handleInpaint api img maskData st) = [inpaint_request (inpaint_params img maskData)]"
  by (simp add: handleInpaint_def inpaintImage_def Let_def)

subsection \<open>The editor and the result\<close>

lemma editor_props_Some:
  "editor_props st = Some (imageUrl, img) \<longleftrightarrow>
     isEditing st \<and> resultImage st = Some imageUrl \<and> imageUrl \<noteq> [] \<and>
     resultImageBase64 st = Some img \<and> img \<noteq> []"
  by (auto simp: editor_props_def truthy_def split: option.splits)

lemma editor_props_None:
  "editor_props st = None \<longleftrightarrow>
     \<not> (isEditing st \<and> truthy (resultImage st) \<and> truthy (resultImageBase64 st))"
  by (auto simp: editor_props_def truthy_def split: option.splits)

lemma click_save_requests:
  assumes "editor_props st = Some (imageUrl, img)" and "\<not> isLoading st"
  shows "snd (click_save b api (Some mc) st) =
     [inpaint_request
        (inpaint_params img (at_index (split_comma (toDataURL b mc ''image/png'' None)) 1))]"
  using assms by (simp add: click_save_def handleSave_def handleInpaint_requests)

lemma editor_props_uploads:
  "editor_props (st\<lparr>sceneImage := s, characterImage := c\<rparr>) = editor_props st"
  by (simp add: editor_props_def cong: option.case_cong)

lemma click_save_uploads:
  "snd (click_save b api r (st\<lparr>sceneImage := s, characterImage := c\<rparr>)) =
     snd (click_save b api r st)"
  unfolding click_save_def editor_props_uploads
  by (simp add: handleInpaint_requests split: option.splits prod.splits)

lemma handleInpaint_state:
  "fst (handleInpaint api img maskData st) =
     inpaint_settle (snd (inpaintImage api (inpaint_params img maskData))) (inpaint_start st)"
  by (simp add: handleInpaint_def Let_def)

lemma handleGenerate_failed:
  assumes "sceneImage st \<noteq> None" and "characterImage st \<noteq> None"
    and "error (fst (handleGenerate b api st)) \<noteq> None"
  shows "resultImage (fst (handleGenerate b api st)) = None \<and>
         resultImageBase64 (fst (handleGenerate b api st)) = None"
  using assms
  by (auto simp: handleGenerate_def generate_settle_def generate_start_def Let_def
           split: option.splits sum.splits)

subsection \<open>The concrete inputs evaluated\<close>

lemma example_scene_converted:
  "fileToBase64 example_browser example_scene =
     Inr \<lparr>base64 = Some ''QUJD'', mimeType = ''image/jpeg''\<rparr>"
  by (simp add: fileToBase64_def example_scene_def example_browser_def MAX_DIMENSION_def
        outputMimeType_def at_index_def Let_def)

lemma example_character_converted:
  "fileToBase64 example_browser example_character =
     Inr \<lparr>base64 = Some ''iVBORw=='', mimeType = ''image/png''\<rparr>"
  by (simp add: fileToBase64_def example_character_def MAX_DIMENSION_def at_index_def)

lemma example_parts:
  "first_candidate_parts example_response =
     [ResponsePart None (Some ''Here is the image.''),
      ResponsePart (Some (Blob (Some ''AAAA'') (Some ''image/png''))) None]"
  by (simp add: first_candidate_parts_def example_response_def at_index_def)

lemma example_state_images:
  "sceneImage example_state = Some example_scene"
  "characterImage example_state = Some example_character"
  by (simp_all add: example_state_def)

lemma example_requests:
  "snd (handleGenerate example_browser api example_state) = [swap_request example_params]"
  unfolding example_params_def
  by (rule handleGenerate_requests [OF example_state_images example_scene_converted
        example_character_converted])

lemma editing_state_fields:
  "isEditing editing_state"
  "resultImage editing_state = Some ''data:image/png;base64,AAAA''"
  "resultImageBase64 editing_state = Some ''AAAA''"
  "\<not> isLoading editing_state"
  "sceneImage editing_state = Some example_scene"
  "characterImage editing_state = Some example_character"
  by (simp_all add: editing_state_def example_state_def initial_state_def)

lemma editing_state_props:
  "editor_props editing_state = Some (''data:image/png;base64,AAAA'', ''AAAA'')"
  by (simp add: editor_props_def editing_state_fields truthy_def)

lemma failing_inpaint:
  "snd (inpaintImage failing_api q) = Inl ''Inpainting failed: quota exceeded''"
  by (simp add: inpaintImage_def failing_api_def inpaint_catch_def)

lemma example_inpaint:
  "snd (inpaintImage example_api q) = Inr ''AAAA''"
  by (simp add: inpaintImage_def example_api_def example_parts inline_data_def)

lemma failing_generate_error:
  "error (fst (handleGenerate example_browser failing_api editing_state)) \<noteq> None"
  by (simp add: handleGenerate_def editing_state_fields example_scene_converted
        example_character_converted swapCharactersInImage_def failing_api_def
        generate_settle_def Let_def)

text \<open>
  The rounding on familiar values: the doubles written \<open>0.1\<close> and \<open>1 / 3\<close>, and two
  ties, which go to the even significand.
\<close>

lemma double_one_tenth: "double (1 / 10) = 3602879701896397 / 36028797018963968"
  by code_simp

lemma double_ties: "double (2 ^ 53 + 1) = 2 ^ 53" "double (2 ^ 53 + 3) = 2 ^ 53 + 4"
  by code_simp+

lemma double_512_561: "double (512 / 561) = 2055118546536269 / 2251799813685248"
  by code_simp

lemma double_561_times:
  "double (561 * (2055118546536269 / 2251799813685248)) = 9007199254740991 / 17592186044416"
  by code_simp

lemma scaled_1122_561:
  "scaled_dimensions 1122 561 = (1024, 9007199254740991 / 17592186044416)"
proof -
  have "js_divide 1024 1122 = 2055118546536269 / 2251799813685248"
    using double_512_561 by (simp add: js_divide_def)
  then have "js_times 561 (js_divide 1024 1122) = 9007199254740991 / 17592186044416"
    using double_561_times by (simp only: js_times_def)
  then show ?thesis by (simp add: scaled_dimensions_def MAX_DIMENSION_def)
qed

lemma floor_scaled_561: "\<lfloor>9007199254740991 / 17592186044416 :: rat\<rfloor> = 511"
  by (rule floor_unique) simp_all





section \<open>The claims\<close>

text \<open>
  Claim C2, as amended. An image (its sides below \<open>2 ^ 32\<close>) that \<open>fileToBase64\<close> decodes
  with a width or a height above 1024 is drawn on a canvas whose computed dimensions
  \<open>(w, h)\<close> have the larger side set to exactly 1024. The other side is the original one
  multiplied by \<open>1024 / max width height\<close> up to the rounding of the two double
  operations, a relative error of at most \<open>2 ^ - 51\<close>. Neither computed side exceeds 1024
  nor the side it comes from, and the same holds for the integer size attributes of the
  canvas, which are the computed sides truncated.
\<close>

theorem fileToBase64_downscales_to_max_dimension:
  assumes rd: "file_read f = ReaderLoad (Some imgUrl)" and ne: "imgUrl \<noteq> []"
    and dec: "file_decode f = ImageLoad width height"
    and ctx: "getContext2d b"
    and big: "MAX_DIMENSION < width \<or> MAX_DIMENSION < height"
    and range: "width < 2 ^ 32" "height < 2 ^ 32"
    and wh: "scaled_dimensions width height = (w, h)"
    and cv: "cv = resize_canvas imgUrl (w, h)"
  shows "fileToBase64 b f =
       Inr \<lparr>base64 = at_index (split_comma (toDataURL b cv (outputMimeType f) (Some (quality f)))) 1,
            mimeType = outputMimeType f\<rparr> \<and>
     canvas_ops cv = [DrawImage imgUrl 0 0 w h] \<and>
     max w h = 1024 \<and>
     (height < width \<longrightarrow> w = 1024) \<and> (\<not> height < width \<longrightarrow> h = 1024) \<and>
     \<bar>w - of_nat width * (1024 / of_nat (max width height))\<bar>
       \<le> of_nat width * (1024 / of_nat (max width height)) / 2 ^ 51 \<and>
     \<bar>h - of_nat height * (1024 / of_nat (max width height))\<bar>
       \<le> of_nat height * (1024 / of_nat (max width height)) / 2 ^ 51 \<and>
     0 \<le> w \<and> 0 \<le> h \<and>
     w \<le> 1024 \<and> h \<le> 1024 \<and> w \<le> of_nat width \<and> h \<le> of_nat height \<and>
     canvas_width cv = nat \<lfloor>w\<rfloor> \<and> canvas_height cv = nat \<lfloor>h\<rfloor> \<and>
     canvas_width cv \<le> 1024 \<and> canvas_height cv \<le> 1024 \<and>
     canvas_width cv \<le> width \<and> canvas_height cv \<le> height"
proof -
  have run: "fileToBase64 b f =
       Inr \<lparr>base64 = at_index (split_comma (toDataURL b cv (outputMimeType f) (Some (quality f)))) 1,
            mimeType = outputMimeType f\<rparr>"
    using large_run [OF rd ne dec ctx big] wh cv by simp
  note facts = scaled_dimensions_facts [OF big range wh]
  have ops: "canvas_ops cv = [DrawImage imgUrl 0 0 w h]"
    by (simp add: cv resize_canvas_def)
  have w0: "0 \<le> w" and w1024: "w \<le> 1024" and h0: "0 \<le> h" and h1024: "h \<le> 1024"
    using facts by blast+
  have cw: "canvas_width cv = nat \<lfloor>w\<rfloor>"
    using w0 w1024 by (simp add: cv resize_canvas_def to_unsigned_long_small)
  have ch: "canvas_height cv = nat \<lfloor>h\<rfloor>"
    using h0 h1024 by (simp add: cv resize_canvas_def to_unsigned_long_small)
  have w1: "w \<le> of_nat 1024" and h1: "h \<le> of_nat 1024" using w1024 h1024 by simp_all
  have w2: "w \<le> of_nat width" and h2: "h \<le> of_nat height" using facts by blast+
  have fl: "canvas_width cv \<le> 1024" "canvas_height cv \<le> 1024"
    "canvas_width cv \<le> width" "canvas_height cv \<le> height"
    unfolding cw ch
    using nat_floor_le [OF w1] nat_floor_le [OF h1] nat_floor_le [OF w2] nat_floor_le [OF h2]
    by simp_all
  show ?thesis
    apply (intro conjI)
    using run ops facts cw ch fl by blast+
qed

text \<open>
  The claim as stated fails at an image of 1122 by 561 pixels: the computed height is the
  double just below 512 and not \<open>561 * (1024 / 1122) = 512\<close>, the canvas is 1024 by 511,
  and neither keeps the ratio of the image.
\<close>

theorem fileToBase64_same_factor_counterexample:
  "MAX_DIMENSION < 1122 \<and>
   scaled_dimensions 1122 561 = (1024, 9007199254740991 / 17592186044416) \<and>
   (9007199254740991 / 17592186044416 :: rat) \<noteq> 561 * (1024 / 1122) \<and>
   (1024 :: rat) * 561 \<noteq> 9007199254740991 / 17592186044416 * 1122 \<and>
   canvas_width (resize_canvas ''data:image/png;base64,iVBORw=='' (scaled_dimensions 1122 561)) = 1024 \<and>
   canvas_height (resize_canvas ''data:image/png;base64,iVBORw=='' (scaled_dimensions 1122 561)) = 511 \<and>
   (1024 :: nat) * 561 \<noteq> 511 * 1122"
proof -
  have 1: "MAX_DIMENSION < 1122" by (simp add: MAX_DIMENSION_def)
  have 2: "(9007199254740991 / 17592186044416 :: rat) \<noteq> 561 * (1024 / 1122)" by simp
  have 3: "(1024 :: rat) * 561 \<noteq> 9007199254740991 / 17592186044416 * 1122" by simp
  have 4: "canvas_width (resize_canvas ''data:image/png;base64,iVBORw=='' (scaled_dimensions 1122 561)) = 1024"
    by (simp add: scaled_1122_561 resize_canvas_def to_unsigned_long_def)
  have 5: "canvas_height (resize_canvas ''data:image/png;base64,iVBORw=='' (scaled_dimensions 1122 561)) = 511"
    by (simp add: scaled_1122_561 resize_canvas_def to_unsigned_long_def floor_scaled_561)
  have 6: "(1024 :: nat) * 561 \<noteq> 511 * 1122" by simp
  show ?thesis using 1 scaled_1122_561 2 3 4 5 6 by (intro conjI)
qed

theorem fileToBase64_downscales_to_max_dimension_witness:
  "file_read rounded_scene = ReaderLoad (Some ''data:image/webp;base64,UklGRg=='') \<and>
   file_decode rounded_scene = ImageLoad 1122 561 \<and>
   getContext2d example_browser \<and> MAX_DIMENSION < 1122 \<and>
   (1122 :: nat) < 2 ^ 32 \<and> (561 :: nat) < 2 ^ 32 \<and>
   scaled_dimensions 1122 561 = (1024, 9007199254740991 / 17592186044416) \<and>
   fileToBase64 example_browser rounded_scene =
     Inr \<lparr>base64 = Some ''QUJD'', mimeType = ''image/jpeg''\<rparr> \<and>
   canvas_width (resize_canvas ''data:image/webp;base64,UklGRg==''
     (1024, 9007199254740991 / 17592186044416)) = 1024 \<and>
   canvas_height (resize_canvas ''data:image/webp;base64,UklGRg==''
     (1024, 9007199254740991 / 17592186044416)) = 511 \<and>
   \<bar>9007199254740991 / 17592186044416 - of_nat 561 * (1024 / of_nat (max 1122 561))\<bar>
     \<le> (of_nat 561 * (1024 / of_nat (max 1122 561)) / 2 ^ 51 :: rat)"
proof -
  have h1: "file_read rounded_scene = ReaderLoad (Some ''data:image/webp;base64,UklGRg=='')"
    by (simp add: rounded_scene_def example_scene_def)
  have h2: "''data:image/webp;base64,UklGRg=='' \<noteq> []" by simp
  have h3: "file_decode rounded_scene = ImageLoad 1122 561"
    by (simp add: rounded_scene_def)
  have h4: "getContext2d example_browser" by (simp add: example_browser_def)
  have h5: "MAX_DIMENSION < 1122 \<or> MAX_DIMENSION < 561" by (simp add: MAX_DIMENSION_def)
  have h6: "MAX_DIMENSION < 1122" by (simp add: MAX_DIMENSION_def)
  have h7: "(1122 :: nat) < 2 ^ 32" "(561 :: nat) < 2 ^ 32" by simp_all
  have t: "toDataURL example_browser cv ''image/jpeg'' q = ''data:image/jpeg;base64,QUJD''"
    for cv q
    by (simp add: example_browser_def)
  have m: "outputMimeType rounded_scene = ''image/jpeg''"
    by (simp add: rounded_scene_def example_scene_def outputMimeType_def)
  note r = fileToBase64_downscales_to_max_dimension
    [OF h1 h2 h3 h4 h5 h7 scaled_1122_561 refl]
  have a: "fileToBase64 example_browser rounded_scene =
     Inr \<lparr>base64 = Some ''QUJD'', mimeType = ''image/jpeg''\<rparr>"
  proof -
    have "fileToBase64 example_browser rounded_scene =
       Inr \<lparr>base64 = at_index (split_comma (toDataURL example_browser
                (resize_canvas ''data:image/webp;base64,UklGRg==''
                   (1024, 9007199254740991 / 17592186044416))
                (outputMimeType rounded_scene) (Some (quality rounded_scene)))) 1,
            mimeType = outputMimeType rounded_scene\<rparr>"
      using r by blast
    then show ?thesis by (simp add: m t at_index_def)
  qed
  have "canvas_width (resize_canvas ''data:image/webp;base64,UklGRg==''
       (1024, 9007199254740991 / 17592186044416)) = nat \<lfloor>1024 :: rat\<rfloor>"
    using r by blast
  then have b: "canvas_width (resize_canvas ''data:image/webp;base64,UklGRg==''
       (1024, 9007199254740991 / 17592186044416)) = 1024"
    by simp
  have "canvas_height (resize_canvas ''data:image/webp;base64,UklGRg==''
       (1024, 9007199254740991 / 17592186044416)) =
      nat \<lfloor>9007199254740991 / 17592186044416 :: rat\<rfloor>"
    using r by blast
  then have c: "canvas_height (resize_canvas ''data:image/webp;base64,UklGRg==''
       (1024, 9007199254740991 / 17592186044416)) = 511"
    by (simp only: floor_scaled_561)
  have d: "\<bar>9007199254740991 / 17592186044416 - of_nat 561 * (1024 / of_nat (max 1122 561))\<bar>
     \<le> (of_nat 561 * (1024 / of_nat (max 1122 561)) / 2 ^ 51 :: rat)"
    using r by blast
  show ?thesis using h1 h3 h4 h6 h7 scaled_1122_561 a b c d by (intro conjI)
qed




text \<open>
  Claim C4. \<open>swapCharactersInImage\<close> resolves with \<open>d\<close> exactly when the call returned a
  response and \<open>d\<close> is the non-empty inline data of the first part, among the parts of the
  first candidate, that carries non-empty inline data. It rejects whenever no part of any
  candidate of the response carries inline data. \<open>inpaintImage\<close> behaves the same way.
\<close>

theorem image_data_resolves_or_rejects:
  "(snd (swapCharactersInImage api p) = Inr d \<longleftrightarrow>
      (\<exists>r. api (swap_request p) = Inr r \<and>
         (\<exists>i < length (first_candidate_parts r).
            inline_data (first_candidate_parts r ! i) = Some d \<and> d \<noteq> [] \<and>
            (\<forall>j < i. \<not> truthy (inline_data (first_candidate_parts r ! j)))))) \<and>
   (snd (inpaintImage api q) = Inr d \<longleftrightarrow>
      (\<exists>r. api (inpaint_request q) = Inr r \<and>
         (\<exists>i < length (first_candidate_parts r).
            inline_data (first_candidate_parts r ! i) = Some d \<and> d \<noteq> [] \<and>
            (\<forall>j < i. \<not> truthy (inline_data (first_candidate_parts r ! j)))))) \<and>
   (\<forall>r. api (swap_request p) = Inr r \<and>
        (\<forall>part \<in> set (all_parts r). \<not> truthy (inline_data part)) \<longrightarrow>
      (\<exists>m. snd (swapCharactersInImage api p) = Inl m)) \<and>
   (\<forall>r. api (inpaint_request q) = Inr r \<and>
        (\<forall>part \<in> set (all_parts r). \<not> truthy (inline_data part)) \<longrightarrow>
      (\<exists>m. snd (inpaintImage api q) = Inl m))"
  unfolding swap_resolves_iff inpaint_resolves_iff first_inline_data_Some
  using swap_rejects [of api p] inpaint_rejects [of api q] by blast

theorem image_data_resolves_or_rejects_witness:
  "snd (swapCharactersInImage example_api example_params) = Inr ''AAAA'' \<and>
   snd (inpaintImage example_api (inpaint_params ''AAAA'' (Some ''QUJD''))) = Inr ''AAAA'' \<and>
   refusing_api (swap_request example_params) = Inr (Response None) \<and>
   all_parts (Response None) = [] \<and>
   (\<exists>m. snd (swapCharactersInImage refusing_api example_params) = Inl m) \<and>
   (\<exists>m. snd (inpaintImage refusing_api (inpaint_params ''AAAA'' (Some ''QUJD''))) = Inl m)"
proof -
  have found: "\<exists>i < length (first_candidate_parts example_response).
      inline_data (first_candidate_parts example_response ! i) = Some ''AAAA'' \<and> ''AAAA'' \<noteq> [] \<and>
      (\<forall>j < i. \<not> truthy (inline_data (first_candidate_parts example_response ! j)))"
    unfolding example_parts
    by (rule exI [of _ 1]) (simp add: inline_data_def truthy_def)
  have api: "example_api req = Inr example_response" for req
    by (simp add: example_api_def)
  have none: "\<forall>part \<in> set (all_parts (Response None)). \<not> truthy (inline_data part)"
    by (simp add: all_parts_def)
  have ref: "refusing_api req = Inr (Response None)" for req
    by (simp add: refusing_api_def)
  note r = image_data_resolves_or_rejects [of example_api example_params "''AAAA''"
      "inpaint_params ''AAAA'' (Some ''QUJD'')"]
  note r' = image_data_resolves_or_rejects [of refusing_api example_params "''AAAA''"
      "inpaint_params ''AAAA'' (Some ''QUJD'')"]
  have a: "snd (swapCharactersInImage example_api example_params) = Inr ''AAAA''"
    using r api found by blast
  have b: "snd (inpaintImage example_api (inpaint_params ''AAAA'' (Some ''QUJD''))) = Inr ''AAAA''"
    using r api found by blast
  have c: "\<exists>m. snd (swapCharactersInImage refusing_api example_params) = Inl m"
    using r' ref none by blast
  have d: "\<exists>m. snd (inpaintImage refusing_api (inpaint_params ''AAAA'' (Some ''QUJD''))) = Inl m"
    using r' ref none by blast
  have e: "all_parts (Response None) = []" by (simp add: all_parts_def)
  show ?thesis using a b ref e c d by (intro conjI)
qed

text \<open>
  Claim C5. With the scene or the character image missing, \<open>handleGenerate\<close> only sets the
  error message and sends nothing, \<open>canGenerate\<close> is false and the Generate button is
  disabled. Whenever a request is sent, both images are present.
\<close>

theorem generate_requires_both_uploads:
  "(sceneImage st = None \<or> characterImage st = None \<longrightarrow>
      handleGenerate b api st =
        (st\<lparr>error := Some ''Please upload both a scene and a character image.''\<rparr>, []) \<and>
      \<not> canGenerate st \<and> generate_disabled st \<and> click_generate b api st = (st, [])) \<and>
   (snd (handleGenerate b api st) \<noteq> [] \<longrightarrow>
      sceneImage st \<noteq> None \<and> characterImage st \<noteq> None) \<and>
   (snd (click_generate b api st) \<noteq> [] \<longrightarrow>
      sceneImage st \<noteq> None \<and> characterImage st \<noteq> None) \<and>
   (canGenerate st \<longleftrightarrow> sceneImage st \<noteq> None \<and> characterImage st \<noteq> None)"
proof (intro conjI impI)
  assume m: "sceneImage st = None \<or> characterImage st = None"
  show "handleGenerate b api st =
        (st\<lparr>error := Some ''Please upload both a scene and a character image.''\<rparr>, [])"
    by (rule handleGenerate_missing [OF m])
  show "\<not> canGenerate st" using m by (auto simp: canGenerate_def)
  then show "generate_disabled st" by (simp add: generate_disabled_def)
  then show "click_generate b api st = (st, [])" by (simp add: click_generate_def)
next
  assume "snd (handleGenerate b api st) \<noteq> []"
  then have r: "sceneImage st \<noteq> None \<and> characterImage st \<noteq> None" by (rule handleGenerate_sends)
  show "sceneImage st \<noteq> None" using r by simp
  show "characterImage st \<noteq> None" using r by simp
next
  assume a: "snd (click_generate b api st) \<noteq> []"
  then have "snd (handleGenerate b api st) \<noteq> []"
    by (simp add: click_generate_def split: if_splits)
  then have r: "sceneImage st \<noteq> None \<and> characterImage st \<noteq> None" by (rule handleGenerate_sends)
  show "sceneImage st \<noteq> None" using r by simp
  show "characterImage st \<noteq> None" using r by simp
next
  show "canGenerate st \<longleftrightarrow> sceneImage st \<noteq> None \<and> characterImage st \<noteq> None"
    by (simp add: canGenerate_def)
qed

theorem generate_requires_both_uploads_witness:
  "sceneImage initial_state = None \<and>
   snd (handleGenerate example_browser example_api initial_state) = [] \<and>
   error (fst (handleGenerate example_browser example_api initial_state)) =
     Some ''Please upload both a scene and a character image.'' \<and>
   generate_disabled initial_state \<and>
   snd (handleGenerate example_browser example_api example_state) \<noteq> [] \<and>
   sceneImage example_state \<noteq> None \<and> characterImage example_state \<noteq> None \<and>
   canGenerate example_state"
proof -
  have n: "sceneImage initial_state = None" by (simp add: initial_state_def)
  note r = generate_requires_both_uploads [of initial_state example_browser example_api]
  note r' = generate_requires_both_uploads [of example_state example_browser example_api]
  have a: "snd (handleGenerate example_browser example_api initial_state) = []"
    "error (fst (handleGenerate example_browser example_api initial_state)) =
       Some ''Please upload both a scene and a character image.''"
    "generate_disabled initial_state"
    using r n by simp_all
  have s: "snd (handleGenerate example_browser example_api example_state) \<noteq> []"
    by (simp add: example_requests)
  have b: "sceneImage example_state \<noteq> None" "characterImage example_state \<noteq> None"
    "canGenerate example_state"
    using r' s by blast+
  show ?thesis using n a s b by (intro conjI)
qed

text \<open>
  Claim C6. The fusion request has exactly three parts, in this order: the scene image with
  its MIME type, the character image with its MIME type, and the composed prompt; it asks
  for the IMAGE and TEXT modalities. The inpainting request has the image, then the mask,
  then the inpainting prompt, with the same modalities. The requests sent by
  \<open>handleGenerate\<close> and \<open>handleInpaint\<close> are of these forms, filled with the converted
  uploads and with the image and mask declared as \<open>image/png\<close>.
\<close>

theorem request_parts_in_order:
  "request_parts (fst (swapCharactersInImage api p)) =
     [InlineData (sceneImageBase64 p) (sceneMimeType p),
      InlineData (characterImageBase64 p) (characterMimeType p),
      Text (swap_prompt p)] \<and>
   responseModalities (fst (swapCharactersInImage api p)) = [IMAGE, TEXT] \<and>
   request_parts (fst (inpaintImage api q)) =
     [InlineData (imageBase64 q) (imageMimeType q),
      InlineData (maskBase64 q) (maskMimeType q),
      Text inpaint_prompt] \<and>
   responseModalities (fst (inpaintImage api q)) = [IMAGE, TEXT] \<and>
   (\<forall>scene character sr cr.
      sceneImage st = Some scene \<and> characterImage st = Some character \<and>
      fileToBase64 b scene = Inr sr \<and> fileToBase64 b character = Inr cr \<longrightarrow>
      map request_parts (snd (handleGenerate b api st)) =
        [[InlineData (base64 sr) (mimeType sr), InlineData (base64 cr) (mimeType cr),
          Text (swap_prompt (swap_params st sr cr))]] \<and>
      map responseModalities (snd (handleGenerate b api st)) = [[IMAGE, TEXT]]) \<and>
   map request_parts (snd (handleInpaint api img maskData st)) =
     [[InlineData (Some img) ''image/png'', InlineData maskData ''image/png'',
       Text inpaint_prompt]] \<and>
   map responseModalities (snd (handleInpaint api img maskData st)) = [[IMAGE, TEXT]]"
proof (intro conjI allI impI)
  fix scene character sr cr
  assume a: "sceneImage st = Some scene \<and> characterImage st = Some character \<and>
      fileToBase64 b scene = Inr sr \<and> fileToBase64 b character = Inr cr"
  then have r: "snd (handleGenerate b api st) = [swap_request (swap_params st sr cr)]"
    using handleGenerate_requests [of st scene character b sr cr api] by simp
  show "map request_parts (snd (handleGenerate b api st)) =
        [[InlineData (base64 sr) (mimeType sr), InlineData (base64 cr) (mimeType cr),
          Text (swap_prompt (swap_params st sr cr))]]"
    unfolding r by (simp add: swap_request_def swap_params_def)
  show "map responseModalities (snd (handleGenerate b api st)) = [[IMAGE, TEXT]]"
    unfolding r by (simp add: swap_request_def)
qed (simp_all add: swapCharactersInImage_def inpaintImage_def swap_request_def
       inpaint_request_def handleInpaint_requests inpaint_params_def)

theorem request_parts_in_order_witness:
  "sceneImage example_state = Some example_scene \<and>
   characterImage example_state = Some example_character \<and>
   fileToBase64 example_browser example_scene =
     Inr \<lparr>base64 = Some ''QUJD'', mimeType = ''image/jpeg''\<rparr> \<and>
   fileToBase64 example_browser example_character =
     Inr \<lparr>base64 = Some ''iVBORw=='', mimeType = ''image/png''\<rparr> \<and>
   map request_parts (snd (handleGenerate example_browser example_api example_state)) =
     [[InlineData (Some ''QUJD'') ''image/jpeg'', InlineData (Some ''iVBORw=='') ''image/png'',
       Text (swap_prompt example_params)]] \<and>
   map responseModalities (snd (handleGenerate example_browser example_api example_state)) =
     [[IMAGE, TEXT]]"
proof -
  note r = request_parts_in_order [of example_api example_params "inpaint_params ''AAAA'' None"
      example_state example_browser "''AAAA''" None]
  have h: "sceneImage example_state = Some example_scene \<and>
      characterImage example_state = Some example_character \<and>
      fileToBase64 example_browser example_scene =
        Inr \<lparr>base64 = Some ''QUJD'', mimeType = ''image/jpeg''\<rparr> \<and>
      fileToBase64 example_browser example_character =
        Inr \<lparr>base64 = Some ''iVBORw=='', mimeType = ''image/png''\<rparr>"
    using example_state_images example_scene_converted example_character_converted
    by (intro conjI)
  have "map request_parts (snd (handleGenerate example_browser example_api example_state)) =
     [[InlineData (base64 \<lparr>base64 = Some ''QUJD'', mimeType = ''image/jpeg''\<rparr>)
         (mimeType \<lparr>base64 = Some ''QUJD'', mimeType = ''image/jpeg''\<rparr>),
       InlineData (base64 \<lparr>base64 = Some ''iVBORw=='', mimeType = ''image/png''\<rparr>)
         (mimeType \<lparr>base64 = Some ''iVBORw=='', mimeType = ''image/png''\<rparr>),
       Text (swap_prompt example_params)]] \<and>
   map responseModalities (snd (handleGenerate example_browser example_api example_state)) =
     [[IMAGE, TEXT]]"
    unfolding example_params_def using r h by blast
  then show ?thesis using h by simp
qed

text \<open>
  Claim C7, as amended. Provided none of the interpolated input strings contains two
  consecutive asterisks, the composed prompt contains the time-of-day instruction, and its
  heading, exactly when \<open>timeOfDay\<close> differs from \<open>As in Scene\<close>; the atmosphere and
  exclusions instructions, and their headings, exactly when their input string is
  non-empty; and the watermark-removal instruction, and its heading, exactly when
  \<open>removeWatermark\<close> is set. The style instruction, always part of the prompt, begins
  with the art-style sentence and ends with the extra lighting, shadow and perspective
  sentence exactly when \<open>artStyle\<close> lowercased is \<open>photorealistic\<close>.
\<close>

theorem prompt_optional_instructions:
  assumes "plain_inputs p"
  shows
   "(sublist (''**Time of Day:** The lighting should reflect '' @ SwapParams.timeOfDay p @ ''.'')
       (swap_prompt p) \<longleftrightarrow> SwapParams.timeOfDay p \<noteq> ''As in Scene'') \<and>
    (sublist ''**Time of Day:**'' (swap_prompt p) \<longleftrightarrow>
       SwapParams.timeOfDay p \<noteq> ''As in Scene'') \<and>
    (sublist (''**Atmosphere:** The overall mood should be '' @ SwapParams.atmosphere p @ ''.'')
       (swap_prompt p) \<longleftrightarrow> SwapParams.atmosphere p \<noteq> []) \<and>
    (sublist ''**Atmosphere:**'' (swap_prompt p) \<longleftrightarrow> SwapParams.atmosphere p \<noteq> []) \<and>
    (sublist (''**Exclusions:** Do not include the following elements in the image: ''
                @ SwapParams.negativePrompt p @ ''.'')
       (swap_prompt p) \<longleftrightarrow> SwapParams.negativePrompt p \<noteq> []) \<and>
    (sublist ''**Exclusions:**'' (swap_prompt p) \<longleftrightarrow> SwapParams.negativePrompt p \<noteq> []) \<and>
    (sublist watermark_text (swap_prompt p) \<longleftrightarrow> SwapParams.removeWatermark p) \<and>
    (sublist ''**Watermark Removal:**'' (swap_prompt p) \<longleftrightarrow> SwapParams.removeWatermark p) \<and>
    sublist (styleInstruction p) (swap_prompt p) \<and>
    prefix (style_base p) (styleInstruction p) \<and>
    (suffix style_extra (styleInstruction p) \<longleftrightarrow>
       toLowerCase (SwapParams.artStyle p) = ''photorealistic'') \<and>
    (styleInstruction p = style_base p \<longleftrightarrow>
       toLowerCase (SwapParams.artStyle p) \<noteq> ''photorealistic'')"
proof (intro conjI)
  show "sublist (styleInstruction p) (swap_prompt p)" by (rule slots_in_prompt)
  show "prefix (style_base p) (styleInstruction p)" by (simp add: styleInstruction_def)
  show "suffix style_extra (styleInstruction p) \<longleftrightarrow>
       toLowerCase (SwapParams.artStyle p) = ''photorealistic''"
    by (rule style_suffix_iff)
  show "styleInstruction p = style_base p \<longleftrightarrow>
       toLowerCase (SwapParams.artStyle p) \<noteq> ''photorealistic''"
    by (simp add: styleInstruction_def style_extra_def)
qed (rule time_in_prompt [OF assms] atmosphere_in_prompt [OF assms]
       exclusions_in_prompt [OF assms] watermark_in_prompt [OF assms])+

text \<open>
  The claim as stated fails on free text: with \<open>timeOfDay\<close> exactly \<open>As in Scene\<close>, an
  atmosphere that spells out a time-of-day instruction puts that instruction into the
  prompt.
\<close>

theorem prompt_free_text_counterexample:
  "SwapParams.timeOfDay injected_params = ''As in Scene'' \<and>
   sublist ''**Time of Day:** The lighting should reflect Night.'' (swap_prompt injected_params)"
proof -
  have t: "SwapParams.timeOfDay injected_params = ''As in Scene''"
    by (simp add: injected_params_def)
  have a: "atmosphereInstruction injected_params =
      ''**Atmosphere:** The overall mood should be calm. '' @
      ''**Time of Day:** The lighting should reflect Night.''"
    by (simp add: atmosphereInstruction_def injected_params_def)
  have "sublist ''**Time of Day:** The lighting should reflect Night.''
      (atmosphereInstruction injected_params)"
    unfolding a by (rule sublist_append_leftI)
  then have "sublist ''**Time of Day:** The lighting should reflect Night.''
      (swap_prompt injected_params)"
    using slots_in_prompt(4) [of injected_params] by (rule sublist_via)
  then show ?thesis using t by simp
qed

theorem prompt_optional_instructions_witness:
  "plain_inputs example_params \<and>
   sublist ''**Time of Day:** The lighting should reflect Night.'' (swap_prompt example_params) \<and>
   \<not> sublist ''**Atmosphere:**'' (swap_prompt example_params) \<and>
   \<not> sublist ''**Exclusions:**'' (swap_prompt example_params) \<and>
   sublist watermark_text (swap_prompt example_params) \<and>
   suffix style_extra (styleInstruction example_params) \<and>
   plain_inputs anime_params \<and>
   \<not> suffix style_extra (styleInstruction anime_params) \<and>
   styleInstruction anime_params = style_base anime_params"
proof -
  have p: "SwapParams.timeOfDay example_params = ''Night''"
    "SwapParams.atmosphere example_params = []"
    "SwapParams.negativePrompt example_params = []"
    "SwapParams.removeWatermark example_params"
    "SwapParams.artStyle example_params = ''Photorealistic''"
    "SwapParams.artStyle anime_params = ''Anime''"
    by (simp_all add: example_params_def anime_params_def swap_params_def example_state_def
          initial_state_def)
  have c: "plain_inputs example_params" "plain_inputs anime_params"
    by (simp_all add: plain_inputs_def star_free_plain example_params_def anime_params_def
          swap_params_def example_state_def initial_state_def)
  have l: "toLowerCase ''Photorealistic'' = ''photorealistic''"
    "toLowerCase ''Anime'' \<noteq> ''photorealistic''"
    by (simp_all add: toLowerCase_def lower_char_def)
  note r = prompt_optional_instructions [OF c(1)]
  note r' = prompt_optional_instructions [OF c(2)]
  have "sublist (''**Time of Day:** The lighting should reflect '' @
        SwapParams.timeOfDay example_params @ ''.'') (swap_prompt example_params) \<longleftrightarrow>
      SwapParams.timeOfDay example_params \<noteq> ''As in Scene''"
    using r by blast
  then have 1: "sublist ''**Time of Day:** The lighting should reflect Night.''
      (swap_prompt example_params)"
    by (simp add: p)
  have "sublist ''**Atmosphere:**'' (swap_prompt example_params) \<longleftrightarrow>
      SwapParams.atmosphere example_params \<noteq> []"
    using r by blast
  then have 2: "\<not> sublist ''**Atmosphere:**'' (swap_prompt example_params)"
    by (simp add: p)
  have "sublist ''**Exclusions:**'' (swap_prompt example_params) \<longleftrightarrow>
      SwapParams.negativePrompt example_params \<noteq> []"
    using r by blast
  then have 3: "\<not> sublist ''**Exclusions:**'' (swap_prompt example_params)"
    by (simp add: p)
  have "sublist watermark_text (swap_prompt example_params) \<longleftrightarrow>
      SwapParams.removeWatermark example_params"
    using r by blast
  then have 4: "sublist watermark_text (swap_prompt example_params)"
    by (simp add: p)
  have "suffix style_extra (styleInstruction example_params) \<longleftrightarrow>
      toLowerCase (SwapParams.artStyle example_params) = ''photorealistic''"
    using r by blast
  then have 5: "suffix style_extra (styleInstruction example_params)"
    by (simp add: p l)
  have "suffix style_extra (styleInstruction anime_params) \<longleftrightarrow>
      toLowerCase (SwapParams.artStyle anime_params) = ''photorealistic''"
    using r' by blast
  then have 6: "\<not> suffix style_extra (styleInstruction anime_params)"
    by (simp add: p l)
  have "styleInstruction anime_params = style_base anime_params \<longleftrightarrow>
      toLowerCase (SwapParams.artStyle anime_params) \<noteq> ''photorealistic''"
    using r' by blast
  then have 7: "styleInstruction anime_params = style_base anime_params"
    by (simp add: p l)
  show ?thesis using c(1) 1 2 3 4 5 c(2) 6 7 by (intro conjI)
qed

text \<open>
  Claim C8. The editor is rendered only in a state where \<open>isEditing\<close> holds and both
  \<open>resultImage\<close> and \<open>resultImageBase64\<close> are non-empty; in any other state a save does
  nothing. Saving sends one inpainting request whose parts are the current
  \<open>resultImageBase64\<close> and the encoded mask canvas, both declared \<open>image/png\<close>, followed
  by the inpainting prompt; the request does not depend on the uploaded scene and
  character.
\<close>

theorem editor_resubmits_result_with_mask:
  "(editor_props st = Some (imageUrl, img) \<longrightarrow>
      isEditing st \<and> resultImage st = Some imageUrl \<and> imageUrl \<noteq> [] \<and>
      resultImageBase64 st = Some img \<and> img \<noteq> []) \<and>
   (\<not> (isEditing st \<and> truthy (resultImage st) \<and> truthy (resultImageBase64 st)) \<longrightarrow>
      editor_props st = None \<and> click_save b api r st = (st, [])) \<and>
   (editor_props st = Some (imageUrl, img) \<and> \<not> isLoading st \<longrightarrow>
      map request_parts (snd (click_save b api (Some mc) st)) =
        [[InlineData (resultImageBase64 st) ''image/png'',
          InlineData (at_index (split_comma (toDataURL b mc ''image/png'' None)) 1) ''image/png'',
          Text inpaint_prompt]]) \<and>
   snd (click_save b api r (st\<lparr>sceneImage := s, characterImage := c\<rparr>)) =
     snd (click_save b api r st)"
proof (intro conjI impI)
  assume a: "editor_props st = Some (imageUrl, img)"
  show "isEditing st" "resultImage st = Some imageUrl" "imageUrl \<noteq> []"
    "resultImageBase64 st = Some img" "img \<noteq> []"
    using a by (simp_all add: editor_props_Some)
next
  assume a: "\<not> (isEditing st \<and> truthy (resultImage st) \<and> truthy (resultImageBase64 st))"
  then show n: "editor_props st = None" by (simp add: editor_props_None)
  show "click_save b api r st = (st, [])" by (simp add: click_save_def n)
next
  assume a: "editor_props st = Some (imageUrl, img) \<and> \<not> isLoading st"
  then have i: "resultImageBase64 st = Some img" by (simp add: editor_props_Some)
  show "map request_parts (snd (click_save b api (Some mc) st)) =
        [[InlineData (resultImageBase64 st) ''image/png'',
          InlineData (at_index (split_comma (toDataURL b mc ''image/png'' None)) 1) ''image/png'',
          Text inpaint_prompt]]"
    using a click_save_requests [of st imageUrl img b api mc]
    by (simp add: i inpaint_request_def inpaint_params_def)
next
  show "snd (click_save b api r (st\<lparr>sceneImage := s, characterImage := c\<rparr>)) =
     snd (click_save b api r st)"
    by (rule click_save_uploads)
qed

theorem editor_resubmits_result_with_mask_witness:
  "editor_props editing_state = Some (''data:image/png;base64,AAAA'', ''AAAA'') \<and>
   \<not> isLoading editing_state \<and>
   isEditing editing_state \<and> resultImageBase64 editing_state = Some ''AAAA'' \<and>
   map request_parts
     (snd (click_save example_browser example_api
        (Some (maskCanvas (image_onload ''data:image/png;base64,AAAA'' 1024 1024)))
        editing_state)) =
     [[InlineData (Some ''AAAA'') ''image/png'', InlineData (Some ''QUJD'') ''image/png'',
       Text inpaint_prompt]] \<and>
   \<not> (isEditing initial_state \<and> truthy (resultImage initial_state) \<and>
      truthy (resultImageBase64 initial_state)) \<and>
   click_save example_browser example_api None initial_state = (initial_state, [])"
proof -
  have t: "at_index (split_comma (toDataURL example_browser cv ''image/png'' None)) 1 =
             Some ''QUJD''" for cv
    by (simp add: example_browser_def at_index_def)
  have n: "\<not> (isEditing initial_state \<and> truthy (resultImage initial_state) \<and>
      truthy (resultImageBase64 initial_state))"
    by (simp add: initial_state_def)
  note r = editor_resubmits_result_with_mask [of editing_state "''data:image/png;base64,AAAA''" "''AAAA''"
      example_browser example_api None
      "maskCanvas (image_onload ''data:image/png;base64,AAAA'' 1024 1024)"]
  note r' = editor_resubmits_result_with_mask [of initial_state _ _ example_browser example_api None]
  have a: "isEditing editing_state" "resultImageBase64 editing_state = Some ''AAAA''"
    using r editing_state_props by blast+
  have b: "map request_parts
     (snd (click_save example_browser example_api
        (Some (maskCanvas (image_onload ''data:image/png;base64,AAAA'' 1024 1024)))
        editing_state)) =
     [[InlineData (Some ''AAAA'') ''image/png'', InlineData (Some ''QUJD'') ''image/png'',
       Text inpaint_prompt]]"
  proof -
    have "map request_parts
       (snd (click_save example_browser example_api
          (Some (maskCanvas (image_onload ''data:image/png;base64,AAAA'' 1024 1024)))
          editing_state)) =
       [[InlineData (resultImageBase64 editing_state) ''image/png'',
         InlineData (at_index (split_comma (toDataURL example_browser
             (maskCanvas (image_onload ''data:image/png;base64,AAAA'' 1024 1024))
             ''image/png'' None)) 1) ''image/png'',
         Text inpaint_prompt]]"
      using r editing_state_props editing_state_fields(4) by blast
    then show ?thesis by (simp only: t a(2))
  qed
  have c: "click_save example_browser example_api None initial_state = (initial_state, [])"
    using r' n by blast
  show ?thesis using editing_state_props editing_state_fields(4) a b n c by (intro conjI)
qed

text \<open>
  Claim C9. For an image within 1024 by 1024, \<open>fileToBase64\<close> resolves with the second
  comma-separated piece of the data URL the reader produced, which for a URL of the form
  \<open>data:<type>;base64,<payload>\<close> is the payload itself, and with the file's own type.
  For a larger image the result is the canvas encoded as \<open>image/png\<close> (quality 1) when the
  file's type is \<open>image/png\<close>, and as \<open>image/jpeg\<close> with quality 0.9 for every other
  type, so the reported type can differ from the file's.
\<close>

theorem fileToBase64_payload_and_mime_type:
  assumes rd: "file_read f = ReaderLoad (Some imgUrl)" and ne: "imgUrl \<noteq> []"
    and dec: "file_decode f = ImageLoad width height"
    and cv: "cv = resize_canvas imgUrl (scaled_dimensions width height)"
  shows "(width \<le> MAX_DIMENSION \<and> height \<le> MAX_DIMENSION \<longrightarrow>
            fileToBase64 b f =
              Inr \<lparr>base64 = at_index (split_comma imgUrl) 1, mimeType = file_type f\<rparr> \<and>
            (\<forall>t payload. imgUrl = ''data:'' @ t @ '';base64,'' @ payload \<and>
                 CHR '','' \<notin> set t \<and> CHR '','' \<notin> set payload \<longrightarrow>
               fileToBase64 b f = Inr \<lparr>base64 = Some payload, mimeType = file_type f\<rparr>)) \<and>
         (\<not> (width \<le> MAX_DIMENSION \<and> height \<le> MAX_DIMENSION) \<and> getContext2d b \<longrightarrow>
            fileToBase64 b f =
               (if file_type f = ''image/png''
                then Inr \<lparr>base64 = at_index (split_comma (toDataURL b cv ''image/png'' (Some 1))) 1,
                         mimeType = ''image/png''\<rparr>
                else Inr \<lparr>base64 = at_index (split_comma (toDataURL b cv ''image/jpeg'' (Some (9 / 10)))) 1,
                         mimeType = ''image/jpeg''\<rparr>))"
proof (intro conjI impI allI)
  assume small: "width \<le> MAX_DIMENSION \<and> height \<le> MAX_DIMENSION"
  show "fileToBase64 b f =
      Inr \<lparr>base64 = at_index (split_comma imgUrl) 1, mimeType = file_type f\<rparr>"
    by (rule small_run [OF rd ne dec small])
next
  fix t payload
  assume small: "width \<le> MAX_DIMENSION \<and> height \<le> MAX_DIMENSION"
    and url: "imgUrl = ''data:'' @ t @ '';base64,'' @ payload \<and>
                 CHR '','' \<notin> set t \<and> CHR '','' \<notin> set payload"
  have "at_index (split_comma imgUrl) 1 = Some payload"
    using url split_data_url [of t payload] by simp
  then show "fileToBase64 b f = Inr \<lparr>base64 = Some payload, mimeType = file_type f\<rparr>"
    using small_run [OF rd ne dec small, of b] by simp
next
  assume a: "\<not> (width \<le> MAX_DIMENSION \<and> height \<le> MAX_DIMENSION) \<and> getContext2d b"
  then have big: "MAX_DIMENSION < width \<or> MAX_DIMENSION < height" and ctx: "getContext2d b"
    by auto
  note run = large_run [OF rd ne dec ctx big]
  show "fileToBase64 b f =
               (if file_type f = ''image/png''
                then Inr \<lparr>base64 = at_index (split_comma (toDataURL b cv ''image/png'' (Some 1))) 1,
                         mimeType = ''image/png''\<rparr>
                else Inr \<lparr>base64 = at_index (split_comma (toDataURL b cv ''image/jpeg'' (Some (9 / 10)))) 1,
                         mimeType = ''image/jpeg''\<rparr>)"
    unfolding run cv by (simp add: outputMimeType_def quality_def)
qed

theorem fileToBase64_payload_and_mime_type_witness:
  "fileToBase64 example_browser example_character =
     Inr \<lparr>base64 = Some ''iVBORw=='', mimeType = file_type example_character\<rparr> \<and>
   fileToBase64 example_browser example_scene =
      Inr \<lparr>base64 = Some ''QUJD'', mimeType = ''image/jpeg''\<rparr> \<and>
   file_type example_scene = ''image/webp''"
proof -
  have k1: "file_read example_character = ReaderLoad (Some ''data:image/png;base64,iVBORw=='')"
    and k3: "file_decode example_character = ImageLoad 800 600"
    by (simp_all add: example_character_def)
  have k2: "''data:image/png;base64,iVBORw=='' \<noteq> []" by simp
  have k4: "800 \<le> MAX_DIMENSION \<and> 600 \<le> MAX_DIMENSION" by (simp add: MAX_DIMENSION_def)
  have k5: "''data:image/png;base64,iVBORw=='' = ''data:'' @ ''image/png'' @ '';base64,'' @ ''iVBORw=='' \<and>
     CHR '','' \<notin> set ''image/png'' \<and> CHR '','' \<notin> set ''iVBORw==''" by simp
  have small: "fileToBase64 example_browser example_character =
     Inr \<lparr>base64 = Some ''iVBORw=='', mimeType = file_type example_character\<rparr>"
    using fileToBase64_payload_and_mime_type [OF k1 k2 k3 refl, of example_browser] k4 k5 by blast
  have s1: "file_read example_scene = ReaderLoad (Some ''data:image/webp;base64,UklGRg=='')"
    and s3: "file_decode example_scene = ImageLoad 2048 1024"
    and s6: "file_type example_scene = ''image/webp''"
    by (simp_all add: example_scene_def)
  have s2: "''data:image/webp;base64,UklGRg=='' \<noteq> []" by simp
  have s4: "\<not> (2048 \<le> MAX_DIMENSION \<and> 1024 \<le> MAX_DIMENSION) \<and> getContext2d example_browser"
    by (simp add: MAX_DIMENSION_def example_browser_def)
  have t: "toDataURL example_browser cv ''image/jpeg'' q = ''data:image/jpeg;base64,QUJD''" for cv q
    by (simp add: example_browser_def)
  have large: "fileToBase64 example_browser example_scene =
      Inr \<lparr>base64 = Some ''QUJD'', mimeType = ''image/jpeg''\<rparr>"
    using fileToBase64_payload_and_mime_type [OF s1 s2 s3 refl, of example_browser] s4 by (simp add: s6 t at_index_def)
  show ?thesis using small large s6 by (intro conjI)
qed

text \<open>
  Claim C10. When the inpainting call rejects, \<open>handleInpaint\<close> leaves \<open>resultImage\<close> and
  \<open>resultImageBase64\<close> as they were and sets the error message; when it resolves, both are
  replaced by the new image. The updates \<open>handleInpaint\<close> makes before the call keep the
  result, while those of \<open>handleGenerate\<close> clear it, so a failed generation ends with no
  result.
\<close>

theorem failed_inpaint_keeps_result:
  "(snd (inpaintImage api (inpaint_params img maskData)) = Inl m \<longrightarrow>
      resultImage (fst (handleInpaint api img maskData st)) = resultImage st \<and>
      resultImageBase64 (fst (handleInpaint api img maskData st)) = resultImageBase64 st \<and>
      error (fst (handleInpaint api img maskData st)) = Some (''Editing failed: '' @ m)) \<and>
   (snd (inpaintImage api (inpaint_params img maskData)) = Inr d \<longrightarrow>
      resultImageBase64 (fst (handleInpaint api img maskData st)) = Some d \<and>
      resultImage (fst (handleInpaint api img maskData st)) =
        Some (''data:image/png;base64,'' @ d)) \<and>
   resultImage (inpaint_start st) = resultImage st \<and>
   resultImageBase64 (inpaint_start st) = resultImageBase64 st \<and>
   resultImage (generate_start st) = None \<and>
   resultImageBase64 (generate_start st) = None \<and>
   (sceneImage st \<noteq> None \<and> characterImage st \<noteq> None \<and>
    error (fst (handleGenerate b api st)) \<noteq> None \<longrightarrow>
      resultImage (fst (handleGenerate b api st)) = None \<and>
      resultImageBase64 (fst (handleGenerate b api st)) = None)"
proof (intro conjI impI)
  assume a: "snd (inpaintImage api (inpaint_params img maskData)) = Inl m"
  show "resultImage (fst (handleInpaint api img maskData st)) = resultImage st"
    "resultImageBase64 (fst (handleInpaint api img maskData st)) = resultImageBase64 st"
    "error (fst (handleInpaint api img maskData st)) = Some (''Editing failed: '' @ m)"
    unfolding handleInpaint_state a by (simp_all add: inpaint_settle_def inpaint_start_def)
next
  assume a: "snd (inpaintImage api (inpaint_params img maskData)) = Inr d"
  show "resultImageBase64 (fst (handleInpaint api img maskData st)) = Some d"
    "resultImage (fst (handleInpaint api img maskData st)) = Some (''data:image/png;base64,'' @ d)"
    unfolding handleInpaint_state a by (simp_all add: inpaint_settle_def inpaint_start_def)
next
  assume a: "sceneImage st \<noteq> None \<and> characterImage st \<noteq> None \<and>
    error (fst (handleGenerate b api st)) \<noteq> None"
  then have r: "resultImage (fst (handleGenerate b api st)) = None \<and>
         resultImageBase64 (fst (handleGenerate b api st)) = None"
    using handleGenerate_failed [of st b api] by blast
  show "resultImage (fst (handleGenerate b api st)) = None" using r by simp
  show "resultImageBase64 (fst (handleGenerate b api st)) = None" using r by simp
qed (simp_all add: inpaint_start_def generate_start_def)

theorem failed_inpaint_keeps_result_witness:
  "snd (inpaintImage failing_api (inpaint_params ''AAAA'' (Some ''QUJD''))) =
     Inl ''Inpainting failed: quota exceeded'' \<and>
   resultImage (fst (handleInpaint failing_api ''AAAA'' (Some ''QUJD'') editing_state)) =
     Some ''data:image/png;base64,AAAA'' \<and>
   resultImageBase64 (fst (handleInpaint failing_api ''AAAA'' (Some ''QUJD'') editing_state)) =
     Some ''AAAA'' \<and>
   error (fst (handleInpaint failing_api ''AAAA'' (Some ''QUJD'') editing_state)) =
     Some ''Editing failed: Inpainting failed: quota exceeded'' \<and>
   snd (inpaintImage example_api (inpaint_params ''BBBB'' (Some ''QUJD''))) = Inr ''AAAA'' \<and>
   resultImageBase64 (fst (handleInpaint example_api ''BBBB'' (Some ''QUJD'') editing_state)) =
     Some ''AAAA'' \<and>
   sceneImage editing_state \<noteq> None \<and> characterImage editing_state \<noteq> None \<and>
   error (fst (handleGenerate example_browser failing_api editing_state)) \<noteq> None \<and>
   resultImage (fst (handleGenerate example_browser failing_api editing_state)) = None \<and>
   resultImageBase64 (fst (handleGenerate example_browser failing_api editing_state)) = None"
proof -
  note f = failing_inpaint [of "inpaint_params ''AAAA'' (Some ''QUJD'')"]
  note e = example_inpaint [of "inpaint_params ''BBBB'' (Some ''QUJD'')"]
  note r = failed_inpaint_keeps_result [of failing_api "''AAAA''" "Some ''QUJD''"
      "''Inpainting failed: quota exceeded''" editing_state _ example_browser]
  note r' = failed_inpaint_keeps_result [of example_api "''BBBB''" "Some ''QUJD''" _ editing_state "''AAAA''"
      example_browser]
  have i: "sceneImage editing_state \<noteq> None" "characterImage editing_state \<noteq> None"
    by (simp_all add: editing_state_fields)
  have a: "resultImage (fst (handleInpaint failing_api ''AAAA'' (Some ''QUJD'') editing_state)) =
     Some ''data:image/png;base64,AAAA''"
    "resultImageBase64 (fst (handleInpaint failing_api ''AAAA'' (Some ''QUJD'') editing_state)) =
     Some ''AAAA''"
    "error (fst (handleInpaint failing_api ''AAAA'' (Some ''QUJD'') editing_state)) =
     Some ''Editing failed: Inpainting failed: quota exceeded''"
    using r f by (simp_all add: editing_state_fields)
  have b: "resultImageBase64 (fst (handleInpaint example_api ''BBBB'' (Some ''QUJD'') editing_state)) =
     Some ''AAAA''"
    using r' e by blast
  have c: "resultImage (fst (handleGenerate example_browser failing_api editing_state)) = None"
    "resultImageBase64 (fst (handleGenerate example_browser failing_api editing_state)) = None"
    using r i failing_generate_error by blast+
  show ?thesis using f a e b i failing_generate_error c by (intro conjI)
qed

end
